theory Spec2Isabelle
  imports Main "HOL-Library.Sublist" "HOL-Library.AList"
begin

section \<open>Python strings\<close>

text \<open>
  A Python \<^verbatim>\<open>str\<close> is a sequence of Unicode code points, so a string is a list of
  code points (the program names one character outside ASCII, U+2018, code point 8216).
  \<open>str\<close> turns an ASCII literal into such a list.
\<close>

type_synonym pystr = "nat list"

definition str :: "string \<Rightarrow> pystr" where
  "str s = map of_char s"

text \<open>The code points for which \<^verbatim>\<open>str.isspace\<close> holds; \<^verbatim>\<open>str.strip()\<close> removes them
  at both ends.\<close>

definition isspace :: "nat \<Rightarrow> bool" where
  "isspace c \<longleftrightarrow>
     (9 \<le> c \<and> c \<le> 13) \<or> (28 \<le> c \<and> c \<le> 32) \<or> c = 133 \<or> c = 160 \<or> c = 5760
     \<or> (8192 \<le> c \<and> c \<le> 8202) \<or> c = 8232 \<or> c = 8233 \<or> c = 8239 \<or> c = 8287 \<or> c = 12288"

definition py_strip :: "pystr \<Rightarrow> pystr" where
  "py_strip s = rev (dropWhile isspace (rev (dropWhile isspace s)))"

text \<open>\<^verbatim>\<open>s.startswith(p)\<close> is \<open>prefix p s\<close>. \<^verbatim>\<open>s.find(sub)\<close>: the index of the first
  occurrence, \<open>None\<close> for Python's -1; \<^verbatim>\<open>sub in s\<close> asks whether there is one.\<close>

fun py_find :: "'a list \<Rightarrow> 'a list \<Rightarrow> nat option" where
  "py_find sub [] = (if sub = [] then Some 0 else None)"
| "py_find sub (c # cs) =
     (if prefix sub (c # cs) then Some 0 else map_option Suc (py_find sub cs))"

definition py_in :: "'a list \<Rightarrow> 'a list \<Rightarrow> bool" where
  "py_in sub s \<longleftrightarrow> py_find sub s \<noteq> None"

text \<open>\<^verbatim>\<open>s.replace(old, new)\<close>: every occurrence, left to right, without overlap.\<close>

function py_replace :: "'a list \<Rightarrow> 'a list \<Rightarrow> 'a list \<Rightarrow> 'a list" where
  "py_replace old new s =
     (if old = [] then new @ concat (map (\<lambda>c. c # new) s)
      else if s = [] then []
      else if prefix old s then new @ py_replace old new (drop (length old) s)
      else hd s # py_replace old new (tl s))"
  by pat_completeness auto
termination
  by (relation "measure (\<lambda>(old, new, s). length s)") auto

declare py_replace.simps [simp del]

text \<open>\<^verbatim>\<open>s.split(sep, 1)\<close>: at most one split, at the first occurrence of a non-empty
  separator. \<^verbatim>\<open>a, b = xs\<close> raises ValueError unless \<open>xs\<close> has two elements.\<close>

definition py_split1 :: "'a list \<Rightarrow> 'a list \<Rightarrow> 'a list list" where
  "py_split1 sep s =
     (case py_find sep s of
        None \<Rightarrow> [s]
      | Some i \<Rightarrow> [take i s, drop (i + length sep) s])"

text \<open>\<^verbatim>\<open>s.split(sep)\<close> for a separator of one character, as in \<^verbatim>\<open>contents.split("\n")\<close>.\<close>

fun py_split_on :: "'a \<Rightarrow> 'a list \<Rightarrow> 'a list list" where
  "py_split_on sep [] = [[]]"
| "py_split_on sep (c # cs) =
     (if c = sep then [] # py_split_on sep cs
      else (case py_split_on sep cs of
              [] \<Rightarrow> [[c]]
            | l # ls \<Rightarrow> (c # l) # ls))"

text \<open>\<^verbatim>\<open>str(n)\<close> for an integer: its decimal digits, with a minus sign when negative.\<close>

fun str_nat :: "nat \<Rightarrow> pystr" where
  "str_nat n = (if n < 10 then [48 + n] else str_nat (n div 10) @ [48 + n mod 10])"

declare str_nat.simps [simp del]

definition str_int :: "int \<Rightarrow> pystr" where
  "str_int i = (if i < 0 then 45 # str_nat (nat (- i)) else str_nat (nat i))"

text \<open>
  \<^verbatim>\<open>str.upper\<close>, \<^verbatim>\<open>str.lower\<close> and the regular expression class \<^verbatim>\<open>\w\<close> follow Python's
  Unicode database, which is not part of the program: they are parameters of the model.
  \<open>ascii_db\<close> is the instance that agrees with Python on ASCII text; it is used to run the
  model on concrete ASCII inputs.
\<close>

record unicode_db =
  str_upper :: "pystr \<Rightarrow> pystr"
  str_lower :: "pystr \<Rightarrow> pystr"
  re_word :: "nat \<Rightarrow> bool"

definition ascii_db :: unicode_db where
  "ascii_db =
     \<lparr> str_upper = map (\<lambda>c. if 97 \<le> c \<and> c \<le> 122 then c - 32 else c),
       str_lower = map (\<lambda>c. if 65 \<le> c \<and> c \<le> 90 then c + 32 else c),
       re_word = (\<lambda>c. (48 \<le> c \<and> c \<le> 57) \<or> (65 \<le> c \<and> c \<le> 90) \<or> c = 95
                       \<or> (97 \<le> c \<and> c \<le> 122)) \<rparr>"

datatype error =
    AttributeError pystr
  | ValueError
  | Exception pystr

fun unpack2 :: "'a list \<Rightarrow> error + ('a \<times> 'a)" where
  "unpack2 [a, b] = Inr (a, b)"
| "unpack2 _ = Inl ValueError"

section \<open>Entity model\<close>

text \<open>\<^verbatim>\<open>convertHumanNameToDotNodeName\<close>; 8216 is the character U+2018 of the source.\<close>

definition convertHumanNameToDotNodeName :: "pystr \<Rightarrow> pystr" where
  "convertHumanNameToDotNodeName name =
     (let name1 = py_replace (str '' '') (str ''_'') (py_strip name);
          name2 = py_replace (str ''-'') [] (py_strip name1);
          name3 = py_replace [8216] (str ''_'') (py_strip name2)
      in name3)"

text \<open>A \<^verbatim>\<open>dict\<close> is an association list in insertion order: \<open>map_of\<close> reads a key,
  \<open>AList.update\<close> assigns one (a key already present keeps its place).\<close>

record Person =
  fullName :: pystr
  dotNodeName :: pystr
  team :: pystr
  influence :: pystr
  dmu :: pystr
  sentiment :: pystr
  attributes :: "(pystr \<times> pystr) list"

text \<open>The constructor; the second component is the list of warnings it logs.
  \<^verbatim>\<open>re.fullmatch("[\w\-\<dots> ]+", fullName)\<close> asks for a non-empty name of allowed characters.\<close>

definition name_fullmatch :: "unicode_db \<Rightarrow> pystr \<Rightarrow> bool" where
  "name_fullmatch u s \<longleftrightarrow>
     s \<noteq> [] \<and> list_all (\<lambda>c. re_word u c \<or> c = 45 \<or> c = 8216 \<or> c = 32) s"

definition Person_init :: "unicode_db \<Rightarrow> pystr \<Rightarrow> Person \<times> pystr list" where
  "Person_init u fullName0 =
     (let fullName1 = py_strip fullName0 in
      (\<lparr> fullName = fullName1,
         dotNodeName = convertHumanNameToDotNodeName fullName1,
         team = str ''??'',
         influence = [],
         dmu = str ''U'',
         sentiment = str ''N'',
         attributes = [] \<rparr>,
       if name_fullmatch u fullName1 then []
       else [str ''Person's name contains invalid characters: '' @ fullName1]))"

definition getDmuDescription :: "Person \<Rightarrow> pystr" where
  "getDmuDescription self =
     (if dmu self = str ''D'' then str ''Decision Maker''
      else if dmu self = str ''B'' then str ''Buyer''
      else if dmu self = str ''I'' then str ''Influencer''
      else if dmu self = str ''G'' then str ''Gatekeeper''
      else if dmu self = str ''U'' then str ''User''
      else str ''dmu?'')"

definition getSentimentDescription :: "Person \<Rightarrow> pystr" where
  "getSentimentDescription self =
     (if sentiment self = str ''P'' then str ''Proponent''
      else if sentiment self = str ''N'' then str ''Neutral''
      else if sentiment self = str ''O'' then str ''Opponent''
      else str ''sentiment?'')"

text \<open>The setters return the updated person and the warnings logged.\<close>

definition setDmu :: "unicode_db \<Rightarrow> pystr \<Rightarrow> Person \<Rightarrow> Person \<times> pystr list" where
  "setDmu u newValue self =
     (let d = py_strip (str_upper u newValue) in
      if d \<in> set [str ''D'', str ''DECISION MAKER'', str ''DM''] then (self\<lparr>dmu := str ''D''\<rparr>, [])
      else if d \<in> set [str ''B'', str ''BUYER'', str ''BUY''] then (self\<lparr>dmu := str ''B''\<rparr>, [])
      else if d \<in> set [str ''I'', str ''INFLUENCER''] then (self\<lparr>dmu := str ''I''\<rparr>, [])
      else if d \<in> set [str ''G'', str ''GATEKEEPER''] then (self\<lparr>dmu := str ''G''\<rparr>, [])
      else if d \<in> set [str ''U'', str ''USER''] then (self\<lparr>dmu := str ''U''\<rparr>, [])
      else (self\<lparr>dmu := str ''U''\<rparr>,
            [str ''Unknown `dmu` (decision making unit) for: '' @ fullName self
               @ str '', got: '' @ d
               @ str '', but should be [D]ecision Maker, [B]uyer, [I]nfluencer, [G]atekeeper, [U]ser'']))"

definition setSentiment :: "unicode_db \<Rightarrow> pystr \<Rightarrow> Person \<Rightarrow> Person \<times> pystr list" where
  "setSentiment u newValue self =
     (let s = py_strip (str_upper u newValue) in
      if s \<in> set [str ''P'', str ''PROMOTOR'', str ''PROMOTER'', str ''PROPONENT'']
        then (self\<lparr>sentiment := str ''P''\<rparr>, [])
      else if s \<in> set [str ''O'', str ''OPPONENT''] then (self\<lparr>sentiment := str ''O''\<rparr>, [])
      else if s \<in> set [str ''N'', str ''NEUTRAL''] then (self\<lparr>sentiment := str ''N''\<rparr>, [])
      else (self\<lparr>sentiment := str ''N''\<rparr>,
            [str ''Unknown `sentiment` for: '' @ fullName self
               @ str '', got: '' @ s
               @ str '', but should be [P]romoter, [O]pponent or [N]eutral'']))"

definition setInfluence :: "pystr \<Rightarrow> Person \<Rightarrow> Person" where
  "setInfluence v self = self\<lparr>influence := py_strip v\<rparr>"

definition setTeam :: "pystr \<Rightarrow> Person \<Rightarrow> Person" where
  "setTeam v self = self\<lparr>team := v\<rparr>"

definition hasAttribute :: "Person \<Rightarrow> pystr \<Rightarrow> bool" where
  "hasAttribute self key \<longleftrightarrow> map_of (attributes self) key \<noteq> None"

definition getAttribute :: "Person \<Rightarrow> pystr \<Rightarrow> pystr" where
  "getAttribute self key =
     (case map_of (attributes self) key of
        Some rawValue \<Rightarrow>
          (let safeValue1 = py_replace (str ''&'') (str ''&amp;'') rawValue;
               safeValue2 = py_replace (str ''|'') (str '' '') safeValue1;
               safeValue3 = py_strip safeValue2
           in if safeValue3 \<noteq> [] then safeValue3 else str ''Unknown: '' @ key)
      | None \<Rightarrow> str ''Unknown: '' @ key)"

definition setAttribute :: "pystr \<Rightarrow> pystr \<Rightarrow> Person \<Rightarrow> Person" where
  "setAttribute k v self = self\<lparr>attributes := AList.update k v (attributes self)\<rparr>"

section \<open>The model\<close>

text \<open>
  An edge is the dictionary with the keys \<^verbatim>\<open>origin\<close>, \<^verbatim>\<open>type\<close> and \<^verbatim>\<open>destination\<close>.
  In the model, \<open>people\<close> is the dictionary from node names to persons, and \<open>teams\<close> is the
  Python set of team names.

  \<^verbatim>\<open>self.lastPerson\<close> refers to the person object that \<^verbatim>\<open>addPerson\<close> has just stored
  under its node name, and that entry is only ever replaced by \<^verbatim>\<open>addPerson\<close> itself; so
  the reference is kept as the key of that entry, \<open>None\<close> while the attribute does not
  exist. A change made through \<^verbatim>\<open>model.lastPerson\<close> is a change of that entry.
\<close>

record Edge =
  origin :: pystr
  edgeType :: pystr
  destination :: pystr

record Model =
  title :: pystr
  people :: "(pystr \<times> Person) list"
  edges :: "Edge list"
  teams :: "pystr set"
  lastPerson :: "pystr option"

definition Model_init :: Model where
  "Model_init =
     \<lparr> title = str ''Untitled Organization'', people = [], edges = [], teams = {},
       lastPerson = None \<rparr>"

definition getPersonByName :: "Model \<Rightarrow> pystr \<Rightarrow> error + Person" where
  "getPersonByName self personFullName =
     (case map_of (people self) personFullName of
        Some person \<Rightarrow> Inr person
      | None \<Rightarrow> Inl (Exception (str ''Person not found: '' @ personFullName)))"

definition findPerson :: "Model \<Rightarrow> pystr \<Rightarrow> error + Person" where
  "findPerson self name =
     (case find (\<lambda>person. getAttribute person (str ''id'') = name) (map snd (people self)) of
        Some person \<Rightarrow> Inr person
      | None \<Rightarrow> getPersonByName self name)"

definition addPerson :: "unicode_db \<Rightarrow> pystr \<Rightarrow> Model \<Rightarrow> Model \<times> pystr list" where
  "addPerson u personFullName self =
     (case Person_init u personFullName of
        (person, warnings) \<Rightarrow>
          (self\<lparr> people := AList.update (dotNodeName person) person (people self),
                 lastPerson := Some (dotNodeName person) \<rparr>,
           warnings))"

definition addTeam :: "pystr \<Rightarrow> Model \<Rightarrow> Model" where
  "addTeam t self =
     self\<lparr>teams := insert t (teams self)\<rparr>"

text \<open>Reading \<^verbatim>\<open>self.lastPerson\<close> raises AttributeError before the first \<^verbatim>\<open>addPerson\<close>.\<close>

definition getLastPerson :: "Model \<Rightarrow> error + (pystr \<times> Person)" where
  "getLastPerson self =
     (case lastPerson self of
        None \<Rightarrow> Inl (AttributeError (str ''lastPerson''))
      | Some k \<Rightarrow>
          (case map_of (people self) k of
             None \<Rightarrow> Inl (AttributeError (str ''lastPerson''))
           | Some person \<Rightarrow> Inr (k, person)))"

definition putLastPerson :: "pystr \<Rightarrow> Person \<Rightarrow> Model \<Rightarrow> Model" where
  "putLastPerson k person self = self\<lparr>people := AList.update k person (people self)\<rparr>"

definition addConnection :: "pystr \<Rightarrow> pystr \<Rightarrow> Model \<Rightarrow> error + Model" where
  "addConnection et dest self =
     (case getLastPerson self of
        Inl e \<Rightarrow> Inl e
      | Inr (k, person) \<Rightarrow>
          Inr (self\<lparr>edges := edges self @
                 [\<lparr> origin = dotNodeName person, edgeType = et,
                    destination = convertHumanNameToDotNodeName dest \<rparr>]\<rparr>))"

section \<open>The outline parser\<close>

text \<open>The parser's state is the model and the warnings logged so far.\<close>

type_synonym pstate = "Model \<times> pystr list"

definition parseConnection :: "Model \<Rightarrow> pystr \<Rightarrow> error + Model" where
  "parseConnection model line =
     (case unpack2 (py_split1 (str ''->'') line) of
        Inl e \<Rightarrow> Inl e
      | Inr (et, dest) \<Rightarrow>
          if et \<noteq> [] \<and> dest \<noteq> [] then addConnection (py_strip et) (py_strip dest) model
          else Inr model)"

definition parsePersonProperty :: "unicode_db \<Rightarrow> pstate \<Rightarrow> pystr \<Rightarrow> error + pstate" where
  "parsePersonProperty u st line =
     (case st of (model, log) \<Rightarrow>
      case unpack2 (py_split1 (str '':'') line) of
        Inl e \<Rightarrow> Inl e
      | Inr (key0, val0) \<Rightarrow>
          (let propertyKey = str_lower u (py_strip key0);
               propertyValue = py_strip val0
           in
           if propertyKey = str ''influence'' then
             (case getLastPerson model of
                Inl e \<Rightarrow> Inl e
              | Inr (k, p) \<Rightarrow> Inr (putLastPerson k (setInfluence propertyValue p) model, log))
           else if propertyKey = str ''sentiment'' then
             (case getLastPerson model of
                Inl e \<Rightarrow> Inl e
              | Inr (k, p) \<Rightarrow>
                  (case setSentiment u propertyValue p of
                     (p', ws) \<Rightarrow> Inr (putLastPerson k p' model, log @ ws)))
           else if propertyKey = str ''dmu'' then
             (case getLastPerson model of
                Inl e \<Rightarrow> Inl e
              | Inr (k, p) \<Rightarrow>
                  (case setDmu u propertyValue p of
                     (p', ws) \<Rightarrow> Inr (putLastPerson k p' model, log @ ws)))
           else if propertyKey = str ''team'' then
             (let model1 = addTeam propertyValue model in
              case getLastPerson model1 of
                Inl e \<Rightarrow> Inl e
              | Inr (k, p) \<Rightarrow> Inr (putLastPerson k (setTeam propertyValue p) model1, log))
           else
             (case getLastPerson model of
                Inl e \<Rightarrow> Inl e
              | Inr (k, p) \<Rightarrow>
                  Inr (putLastPerson k (setAttribute propertyKey propertyValue p) model, log))))"

text \<open>
  One turn of the loop of \<^verbatim>\<open>parseModel\<close>. In the branch of an indented line, \<open>line1\<close>
  is the value the source gives back to \<^verbatim>\<open>line\<close>; when neither \<^verbatim>\<open>continue\<close> is
  taken, control goes on, after the warning, to \<^verbatim>\<open>model.addPerson(line)\<close>.
\<close>

definition parseLine :: "unicode_db \<Rightarrow> pstate \<Rightarrow> pystr \<Rightarrow> error + pstate" where
  "parseLine u st line =
     (case st of (model, log) \<Rightarrow>
      if line = [] then Inr st
      else if prefix (str ''@'') line \<and> py_in (str '':'') line then
        (case unpack2 (py_split1 (str '':'') (py_replace (str ''@'') [] line)) of
           Inl e \<Rightarrow> Inl e
         | Inr (key, val) \<Rightarrow>
             Inr (if key = str ''title'' then model\<lparr>title := py_strip val\<rparr> else model, log))
      else if prefix [9] line then
        (let line1 = py_replace [9] [] (py_strip line) in
         if py_in (str ''->'') line1 then
           (case parseConnection model line1 of
              Inl e \<Rightarrow> Inl e
            | Inr model' \<Rightarrow> Inr (model', log))
         else if py_in (str '':'') line1 then parsePersonProperty u st line1
         else
           (case addPerson u line1 model of
              (model', ws) \<Rightarrow> Inr (model', log @ [str ''Cannot parse line: '' @ line1] @ ws)))
      else
        (case addPerson u line model of
           (model', ws) \<Rightarrow> Inr (model', log @ ws)))"

fun parseLines :: "unicode_db \<Rightarrow> pstate \<Rightarrow> pystr list \<Rightarrow> error + pstate" where
  "parseLines u st [] = Inr st"
| "parseLines u st (line # rest) =
     (case parseLine u st line of
        Inl e \<Rightarrow> Inl e
      | Inr st' \<Rightarrow> parseLines u st' rest)"

definition parseModel :: "unicode_db \<Rightarrow> pystr \<Rightarrow> error + pstate" where
  "parseModel u contents = parseLines u (Model_init, []) (py_split_on 10 contents)"

section \<open>The filter predicate and the renderer\<close>

text \<open>
  The options that the source reads from the global \<^verbatim>\<open>args\<close>. The two lists that share a
  name with a field of the model carry the suffix \<open>_arg\<close>. The renderer's calls to
  \<^verbatim>\<open>logging\<close> do not change what it returns and are left out; \<^verbatim>\<open>os.path.exists\<close> is the
  parameter \<open>ex\<close>.

  \<^verbatim>\<open>for teamName in model.teams\<close> visits every element of the set once, in an order that
  Python does not fix (it follows the hashes of the strings, which change from run to
  run). The parameter \<open>iter\<close> stands for that iteration: it gives the elements of a set in
  the order of the visit. What is proved about the renderer holds for every \<open>iter\<close> that
  lists each element of the set once.
\<close>

record Args =
  skipDrawingLegend :: bool
  skipDrawingTeams :: bool
  skipDrawingTitle :: bool
  teams_arg :: "pystr list"
  influence_arg :: "pystr list"
  profilePictureDirectory :: pystr
  profilePictures :: bool
  outputType :: pystr
  vizType :: pystr
  dpi :: int
  attributeMatches :: "pystr list"

definition getInfluenceStyleAsDot :: "Args \<Rightarrow> pystr \<Rightarrow> pystr" where
  "getInfluenceStyleAsDot args infl =
     (if vizType args \<noteq> str ''inf'' then str ''fillcolor=white, style=filled''
      else if infl = str ''supporter'' then str ''fillcolor=skyblue, style=filled''
      else if infl = str ''promoter'' then str ''fillcolor=GreenYellow, style=filled''
      else if infl = str ''enemy'' then str ''fillcolor=salmon, style=filled''
      else if infl = str ''internal'' then str ''fillcolor=black, style=filled, fontcolor=white''
      else if py_strip infl = [] then str ''fillcolor=white, style=filled''
      else [])"

definition getLegendAsDot :: "Args \<Rightarrow> pystr" where
  "getLegendAsDot args =
     (if \<not> skipDrawingLegend args then
        (if vizType args = str ''inf'' then
           str ''subgraph cluster_00 {\<newline>''
           @ str ''label=Legend\<newline>''
           @ str ''fillcolor=beige\<newline>''
           @ str ''style=filled\<newline>''
           @ str ''node [fontsize=9]\<newline>''
           @ str ''supporter [fillcolor=skyblue, style=filled]\<newline>''
           @ str ''promoter [fillcolor=GreenYellow, style=filled]\<newline>''
           @ str ''hostile [fillcolor=salmon, style=filled]\<newline>''
           @ str ''internal [fillcolor=black, fontcolor = white, style=filled]\<newline>''
           @ str ''}\<newline>''
         else [])
      else [])"

text \<open>
  The body of the loop over \<^verbatim>\<open>args.attributeMatches\<close>: \<open>True\<close> when it executes
  \<^verbatim>\<open>return True\<close>. The split is only reached when the entry contains \<^verbatim>\<open>=\<close>, where it
  gives two parts.
\<close>

definition attributeSearchExcludes :: "Person \<Rightarrow> pystr \<Rightarrow> bool" where
  "attributeSearchExcludes person attributeSearch =
     (if \<not> py_in (str ''='') attributeSearch then False
      else (case map py_strip (py_split1 (str ''='') attributeSearch) of
              [key, val] \<Rightarrow> \<not> py_in val (getAttribute person key)
            | _ \<Rightarrow> False))"

fun attributeMatchesLoop :: "Person \<Rightarrow> pystr list \<Rightarrow> bool" where
  "attributeMatchesLoop person [] = False"
| "attributeMatchesLoop person (attributeSearch # rest) =
     (if attributeSearchExcludes person attributeSearch then True
      else attributeMatchesLoop person rest)"

definition isPersonExcluded :: "Args \<Rightarrow> Person \<Rightarrow> bool" where
  "isPersonExcluded args person =
     (if length (attributeMatches args) > 0 \<and> attributeMatchesLoop person (attributeMatches args)
        then True
      else if length (teams_arg args) > 0 \<and> team person \<notin> set (teams_arg args) then True
      else if length (influence_arg args) > 0 \<and> influence person \<notin> set (influence_arg args)
        then True
      else False)"

fun teamMembersAsDot :: "Args \<Rightarrow> pystr \<Rightarrow> Person list \<Rightarrow> pystr" where
  "teamMembersAsDot args teamName [] = []"
| "teamMembersAsDot args teamName (person # rest) =
     (if isPersonExcluded args person then teamMembersAsDot args teamName rest
      else if team person = teamName then
        dotNodeName person @ str '' []\<newline>'' @ teamMembersAsDot args teamName rest
      else teamMembersAsDot args teamName rest)"

fun teamsLoop :: "Args \<Rightarrow> Model \<Rightarrow> nat \<Rightarrow> pystr list \<Rightarrow> pystr" where
  "teamsLoop args model subGraphCount [] = []"
| \<open>teamsLoop args model subGraphCount (teamName # rest) =
      str ''subgraph cluster_'' @ str_nat (subGraphCount + 1) @ str ''{\<newline>''
      @ str ''label="'' @ teamName @ str ''"'' @ str ''\<newline>''
      @ str ''style=filled\<newline>''
      @ str ''fillcolor=skyblue\<newline>''
      @ teamMembersAsDot args teamName (map snd (people model))
      @ str ''}\<newline>''
      @ teamsLoop args model (subGraphCount + 1) rest\<close>

definition getTeamsAsDot :: "Args \<Rightarrow> (pystr set \<Rightarrow> pystr list) \<Rightarrow> Model \<Rightarrow> pystr" where
  "getTeamsAsDot args iter model =
     (if skipDrawingTeams args then [] else teamsLoop args model 0 (iter (teams model)))"

definition getEdgeDotStyle :: "Edge \<Rightarrow> pystr" where
  "getEdgeDotStyle edge = (if edgeType edge = str ''supports'' then str ''style=dotted'' else [])"

definition getStyleForDmu :: "pystr \<Rightarrow> pystr \<Rightarrow> pystr" where
  "getStyleForDmu d fullName0 =
     (if d = str ''D'' then str ''green''
      else if d = str ''I'' then str ''skyblue''
      else if d = str ''B'' then str ''purple''
      else if d = str ''G'' then str ''pink''
      else if d = str ''U'' then str ''gray''
      else str ''white'')"

definition getStyleForSentiment :: "pystr \<Rightarrow> pystr \<Rightarrow> pystr" where
  "getStyleForSentiment s fullName0 =
     (if s = str ''P'' then str ''green''
      else if s = str ''N'' then str ''yellow''
      else if s = str ''O'' then str ''pink''
      else str ''white'')"

definition getDsVisType :: "Person \<Rightarrow> pystr" where
  \<open>getDsVisType person =
     str ''<tr><td bgcolor = "'' @ getStyleForDmu (dmu person) (fullName person)
     @ str ''" border = "1">'' @ getDmuDescription person
     @ str ''</td><td bgcolor = "'' @ getStyleForSentiment (sentiment person) (fullName person)
     @ str ''" border = "1">'' @ getSentimentDescription person
     @ str ''</td></tr>''\<close>

definition getPersonLabelAsDot :: "Args \<Rightarrow> (pystr \<Rightarrow> bool) \<Rightarrow> Person \<Rightarrow> pystr" where
  \<open>getPersonLabelAsDot args ex person =
     (let ret1 = str ''<<table border = "0" cellspacing = "0">'';
          ret2 = ret1 @ str ''<tr><td border = "1" colspan = "2"><b>'' @ fullName person
                   @ str ''</b></td></tr>'';
          ret3 = ret2 @ str ''<tr><td border = "1" colspan = "2"><font point-size = "9">''
                   @ getAttribute person (str ''title'') @ str ''</font></td></tr>'';
          pic = profilePictureDirectory args @ fullName person @ str ''.jpeg'';
          ret4 = (if profilePictures args \<and> ex pic
                  then ret3 @ str ''<tr><td colspan = "2" border = "1"><img src = "'' @ pic
                         @ str ''" /></td></tr>''
                  else ret3);
          ret5 = (if hasAttribute person (str ''country'')
                  then ret4 @ str ''<tr><td colspan = "2">''
                         @ getAttribute person (str ''country'') @ str ''</td></tr>''
                  else ret4);
          ret6 = (if vizType args = str ''DS'' then ret5 @ getDsVisType person else ret5)
      in ret6 @ str ''</table>>'')\<close>

fun peopleAsDot :: "Args \<Rightarrow> (pystr \<Rightarrow> bool) \<Rightarrow> Person list \<Rightarrow> pystr" where
  "peopleAsDot args ex [] = []"
| "peopleAsDot args ex (person # rest) =
     (if isPersonExcluded args person then peopleAsDot args ex rest
      else dotNodeName person @ str '' [margin=0, border=invisible, label=''
             @ getPersonLabelAsDot args ex person @ str '','' 
             @ getInfluenceStyleAsDot args (influence person) @ str '']\<newline>''
             @ peopleAsDot args ex rest)"

text \<open>
  The loop over the edges. \<^verbatim>\<open>or\<close> evaluates its right operand only when the left one is
  false, so the destination is looked up only for an origin that is not excluded. The
  first exception ends the rendering.
\<close>

fun edgesAsDot :: "Args \<Rightarrow> Model \<Rightarrow> Edge list \<Rightarrow> error + pystr" where
  "edgesAsDot args model [] = Inr []"
| \<open>edgesAsDot args model (edge # rest) =
     (case findPerson model (origin edge) of
        Inl e \<Rightarrow> Inl e
      | Inr originPerson \<Rightarrow>
          if isPersonExcluded args originPerson then edgesAsDot args model rest
          else
            (case findPerson model (destination edge) of
               Inl e \<Rightarrow> Inl e
             | Inr destinationPerson \<Rightarrow>
                 if isPersonExcluded args destinationPerson then edgesAsDot args model rest
                 else
                   (case edgesAsDot args model rest of
                      Inl e \<Rightarrow> Inl e
                    | Inr out \<Rightarrow>
                        Inr (origin edge @ str '' -> '' @ dotNodeName destinationPerson
                             @ str '' [label="'' @ edgeType edge @ str ''", ''
                             @ getEdgeDotStyle edge @ str '']'' @ str ''\<newline>'' @ out))))\<close>

definition getModelAsDot ::
  "Args \<Rightarrow> (pystr \<Rightarrow> bool) \<Rightarrow> (pystr set \<Rightarrow> pystr list) \<Rightarrow> Model \<Rightarrow> error + pystr" where
  \<open>getModelAsDot args ex iter model =
     (let out1 = str ''digraph {\<newline>'';
          out2 = (if outputType args = str ''png''
                  then out1 @ str ''graph [ dpi = '' @ str_int (dpi args) @ str '' ]\<newline>''
                  else out1);
          out3 = (if \<not> skipDrawingTitle args
                  then out2 @ str ''label="'' @ title model
                         @ str '' - github.com/jamesread/orgviz"'' @ str ''\<newline>''
                  else out2);
          out4 = out3 @ str ''labelloc="t"'' @ str ''\<newline>''
                   @ str ''fontname=Overpass'' @ str ''\<newline>''
                   @ str ''node [fontname=Overpass, shape=record]\<newline>''
                   @ str ''edge [fontname=Overpass, fontsize=9]\<newline>'';
          out5 = out4 @ getTeamsAsDot args iter model;
          out6 = out5 @ peopleAsDot args ex (map snd (people model))
      in case edgesAsDot args model (edges model) of
           Inl e \<Rightarrow> Inl e
         | Inr edgesOut \<Rightarrow> Inr (out6 @ edgesOut @ getLegendAsDot args @ str ''}''))\<close>

section \<open>The specification's wording, and concrete inputs\<close>

text \<open>
  The node name as the specification words it: spaces become underscores, hyphens are
  removed, the quote character is removed.
\<close>

definition nodeId_spec :: "pystr \<Rightarrow> pystr" where
  "nodeId_spec name =
     concat (map (\<lambda>c. if c = 32 then [95] else if c = 45 \<or> c = 8216 then [] else [c]) name)"

text \<open>
  The sanitised attribute value as the specification words it: every \<^verbatim>\<open>&\<close> becomes
  \<^verbatim>\<open>&amp;\<close>, every \<^verbatim>\<open>|\<close> becomes a space, and the result is trimmed.
\<close>

definition sanitize_spec :: "pystr \<Rightarrow> pystr" where
  "sanitize_spec raw =
     py_strip (concat (map (\<lambda>c. if c = 38 then str ''&amp;'' else if c = 124 then [32] else [c]) raw))"

text \<open>The options as \<^verbatim>\<open>getArgumentParser\<close> sets them when no argument is given.\<close>

definition default_args :: Args where
  "default_args =
     \<lparr> skipDrawingLegend = False, skipDrawingTeams = False, skipDrawingTitle = False,
       teams_arg = [], influence_arg = [],
       profilePictureDirectory = str ''/opt/profilePictures/'', profilePictures = False,
       outputType = str ''svg'', vizType = str ''DS'', dpi = 100, attributeMatches = [] \<rparr>"

text \<open>A person with a title to sanitise and a country made of white space only.\<close>

definition person_rd :: Person where
  "person_rd =
     \<lparr> fullName = str ''Alice'', dotNodeName = str ''Alice'', team = str ''Eng'',
       influence = [], dmu = str ''U'', sentiment = str ''N'',
       attributes = [(str ''title'', str '' R&D|Ops ''), (str ''country'', [32, 9])] \<rparr>"

text \<open>The model after the declaration of that person alone.\<close>

definition model_alice :: Model where
  "model_alice =
     \<lparr> title = str ''Untitled Organization'', people = [(str ''Alice'', person_rd)],
       edges = [], teams = {}, lastPerson = Some (str ''Alice'') \<rparr>"

text \<open>Options with one criterion on each axis, and an entry without \<^verbatim>\<open>=\<close>.\<close>

definition args_rd :: Args where
  "args_rd = default_args\<lparr> attributeMatches := [str ''title = D Ops'', str ''nokey''],
                            teams_arg := [str ''Eng''],
                            influence_arg := [[]] \<rparr>"

text \<open>The options of the influence view.\<close>

definition args_inf :: Args where
  "args_inf = default_args\<lparr>vizType := str ''inf''\<rparr>"

text \<open>
  A model whose only edge leads to a name that is nobody's, options that keep only the
  team \<^verbatim>\<open>Eng\<close>, and a file system without pictures.
\<close>

definition model_ghost :: Model where
  "model_ghost =
     \<lparr> title = str ''Untitled Organization'',
       people = [(str ''Alice'', \<lparr> fullName = str ''Alice'', dotNodeName = str ''Alice'',
                    team = str ''Sales'', influence = [], dmu = str ''U'', sentiment = str ''N'',
                    attributes = [] \<rparr>)],
       edges = [\<lparr> origin = str ''Alice'', edgeType = str ''knows'', destination = str ''Ghost'' \<rparr>],
       teams = {str ''Sales''},
       lastPerson = Some (str ''Alice'') \<rparr>"

definition args_eng :: Args where
  "args_eng = default_args\<lparr>teams_arg := [str ''Eng'']\<rparr>"

definition no_pictures :: "pystr \<Rightarrow> bool" where
  "no_pictures path = False"

text \<open>
  An iteration of the sets of the names \<^verbatim>\<open>Sales\<close> and \<^verbatim>\<open>Eng\<close> that visits \<^verbatim>\<open>Sales\<close> first,
  and the model of a document that declares \<^verbatim>\<open>Eng\<close> before \<^verbatim>\<open>Sales\<close>.
\<close>

definition sales_first :: "pystr set \<Rightarrow> pystr list" where
  "sales_first S = filter (\<lambda>t. t \<in> S) [str ''Sales'', str ''Eng'']"

definition model_two_teams :: Model where
  "model_two_teams =
     \<lparr> title = str ''Untitled Organization'',
       people = [(str ''Alice'', \<lparr> fullName = str ''Alice'', dotNodeName = str ''Alice'',
                    team = str ''Eng'', influence = [], dmu = str ''U'', sentiment = str ''N'',
                    attributes = [] \<rparr>),
                 (str ''Bob'', \<lparr> fullName = str ''Bob'', dotNodeName = str ''Bob'',
                    team = str ''Sales'', influence = [], dmu = str ''U'', sentiment = str ''N'',
                    attributes = [] \<rparr>)],
       edges = [],
       teams = {str ''Sales'', str ''Eng''},
       lastPerson = Some (str ''Bob'') \<rparr>"

text \<open>
  The lines of the renderer's output that declare a team: the line that opens the
  subgraph number \<open>i\<close> and the line that labels it with the team's name, and how to
  recognise them among the lines of the output.
\<close>

definition subgraph_decl :: "nat \<Rightarrow> pystr" where
  "subgraph_decl i = str ''subgraph cluster_'' @ str_nat i @ str ''{''"

definition team_label :: "pystr \<Rightarrow> pystr" where
  \<open>team_label t = str ''label="'' @ t @ str ''"''\<close>

definition is_subgraph_decl :: "pystr \<Rightarrow> bool" where
  "is_subgraph_decl l \<longleftrightarrow> prefix (str ''subgraph cluster_'') l \<and> last l = 123"

definition is_team_label :: "pystr \<Rightarrow> bool" where
  \<open>is_team_label l \<longleftrightarrow> prefix (str ''label="'') l \<and> last l = 34\<close>

text \<open>
  The lines of the subgraph number \<open>i\<close> of the team \<open>t\<close>, as the specification words
  them: the declaration, the label, the two style lines, one line for each person of the
  team whom the filter does not exclude, in the order of the people, and the closing brace.
\<close>

definition team_block_lines :: "Args \<Rightarrow> Model \<Rightarrow> nat \<Rightarrow> pystr \<Rightarrow> pystr list" where
  "team_block_lines args m i t =
     [subgraph_decl i, team_label t, str ''style=filled'', str ''fillcolor=skyblue'']
     @ map (\<lambda>p. dotNodeName p @ str '' []'')
           (filter (\<lambda>p. \<not> isPersonExcluded args p \<and> team p = t) (map snd (people m)))
     @ [str ''}'']"

text \<open>No team name and no node name of the model contains a line break.\<close>

definition names_one_line :: "Model \<Rightarrow> bool" where
  "names_one_line m \<longleftrightarrow>
     (\<forall>t\<in>teams m. 10 \<notin> set t)
     \<and> list_all (\<lambda>p. 10 \<notin> set (dotNodeName p)) (map snd (people m))"

text \<open>The set of teams is finite and has the team of every person who was given one.\<close>

definition teams_declared :: "Model \<Rightarrow> bool" where
  "teams_declared m \<longleftrightarrow>
     finite (teams m)
     \<and> list_all (\<lambda>p. team p = str ''??'' \<or> team p \<in> teams m) (map snd (people m))"

section \<open>Facts about the string operations\<close>

lemma py_replace_single_Nil: "py_replace [c] new [] = []"
  by (simp add: py_replace.simps)

lemma py_replace_single_Cons:
  "py_replace [c] new (x # xs) = (if x = c then new else [x]) @ py_replace [c] new xs"
  by (subst py_replace.simps) simp

lemma py_replace_single:
  "py_replace [c] new s = concat (map (\<lambda>x. if x = c then new else [x]) s)"
  by (induction s) (simp_all add: py_replace_single_Nil py_replace_single_Cons)

lemma py_replace_single_absent: "c \<notin> set s \<Longrightarrow> py_replace [c] new s = s"
  by (induction s) (auto simp add: py_replace_single)

lemma set_py_replace_single:
  "set (py_replace [c] new s) = (set s - {c}) \<union> (if c \<in> set s then set new else {})"
  by (induction s) (auto simp add: py_replace_single)

lemma py_strip_Nil: "py_strip [] = []"
  by (simp add: py_strip_def)

lemma set_py_strip: "set (py_strip s) \<subseteq> set s"
  unfolding py_strip_def
  by (metis set_dropWhileD set_rev subsetI)

lemma dropWhile_rev_noop: "s \<noteq> [] \<Longrightarrow> \<not> P (last s) \<Longrightarrow> dropWhile P (rev s) = rev s"
  by (cases s rule: rev_cases) simp_all

lemma py_strip_noop:
  assumes "s = [] \<or> (\<not> isspace (hd s) \<and> \<not> isspace (last s))"
  shows "py_strip s = s"
proof (cases s)
  case Nil then show ?thesis by (simp add: py_strip_def)
next
  case (Cons a as)
  with assms have h: "\<not> isspace (hd s)" and l: "\<not> isspace (last s)" by auto
  have 1: "dropWhile isspace s = s" using h Cons by simp
  have 2: "dropWhile isspace (rev s) = rev s" using l Cons by (intro dropWhile_rev_noop) auto
  show ?thesis by (simp add: py_strip_def 1 2)
qed

lemma last_dropWhile: "dropWhile P xs \<noteq> [] \<Longrightarrow> last (dropWhile P xs) = last xs"
  by (induction xs) (auto split: if_splits)

lemma py_strip_ends:
  assumes "py_strip s \<noteq> []"
  shows "\<not> isspace (hd (py_strip s))" and "\<not> isspace (last (py_strip s))"
proof -
  define t where "t = dropWhile isspace s"
  define r where "r = dropWhile isspace (rev t)"
  have ps: "py_strip s = rev r" by (simp add: py_strip_def t_def r_def)
  with assms have rne: "r \<noteq> []" by simp
  then have tne: "t \<noteq> []" by (auto simp: r_def)
  have "\<not> isspace (hd r)" using rne unfolding r_def by (rule hd_dropWhile)
  then show "\<not> isspace (last (py_strip s))" using rne by (simp add: ps last_rev)
  have "last r = last (rev t)" using rne unfolding r_def by (rule last_dropWhile)
  also have "\<dots> = hd t" using tne by (simp add: last_rev)
  finally have "hd (rev r) = hd t" using rne by (simp add: hd_rev)
  moreover have "\<not> isspace (hd t)" using tne unfolding t_def by (rule hd_dropWhile)
  ultimately show "\<not> isspace (hd (py_strip s))" by (simp add: ps)
qed

lemma py_strip_idem: "py_strip (py_strip s) = py_strip s"
  using py_strip_ends [of s] by (intro py_strip_noop) auto

lemma py_strip_no_space:
  "py_strip s = s" if "\<forall>c\<in>set s. \<not> isspace c"
proof (cases "s = []")
  case True then show ?thesis by (simp add: py_strip_Nil)
next
  case False
  then have "hd s \<in> set s" and "last s \<in> set s" by simp_all
  then show ?thesis using that by (intro py_strip_noop) blast
qed

lemma py_strip_all_space: "\<forall>c\<in>set s. isspace c \<Longrightarrow> py_strip s = []"
proof -
  assume a: "\<forall>c\<in>set s. isspace c"
  have d: "dropWhile isspace s = []" by (rule iffD2 [OF dropWhile_eq_Nil_conv]) (rule a)
  show ?thesis unfolding py_strip_def d by simp
qed

lemma str_simps:
  "str '' '' = [32]" "str ''_'' = [95]" "str ''-'' = [45]" "str ''&'' = [38]" "str ''|'' = [124]"
  "str ''@'' = [64]" "str '':'' = [58]" "str ''='' = [61]" "str ''->'' = [45, 62]"
  "str ''&amp;'' = [38, 97, 109, 112, 59]"
  by (simp_all add: str_def)

lemma isspace_simps: "isspace 32" "\<not> isspace 95" "\<not> isspace 8216" "\<not> isspace 45"
  by (simp_all add: isspace_def)

text \<open>The quote character is not removed: for \<^verbatim>\<open>O\<close>, U+2018, \<^verbatim>\<open>N\<close> the source gives
  \<^verbatim>\<open>O_N\<close>, the wording of claim C2 gives \<^verbatim>\<open>ON\<close>.\<close>

theorem convert_counterexample:
  "convertHumanNameToDotNodeName [79, 8216, 78] \<noteq> nodeId_spec [79, 8216, 78]"
  by (simp add: convertHumanNameToDotNodeName_def nodeId_spec_def py_strip_def isspace_def
      str_simps py_replace_single)

lemma convert_unfold:
  "convertHumanNameToDotNodeName name =
     py_replace [8216] [95] (py_strip (py_replace [45] [] (py_strip (py_replace [32] [95] (py_strip name)))))"
  by (simp add: convertHumanNameToDotNodeName_def str_simps)

lemma convert_no_chars:
  "32 \<notin> set (convertHumanNameToDotNodeName name)"
  "45 \<notin> set (convertHumanNameToDotNodeName name)"
  "8216 \<notin> set (convertHumanNameToDotNodeName name)"
proof -
  let ?a = "py_replace [32] [95] (py_strip name)"
  let ?b = "py_replace [45] [] (py_strip ?a)"
  have a: "32 \<notin> set ?a" by (auto simp: set_py_replace_single split: if_splits)
  then have sa: "32 \<notin> set (py_strip ?a)" using set_py_strip by blast
  have b: "32 \<notin> set ?b" "45 \<notin> set ?b" using sa by (auto simp: set_py_replace_single split: if_splits)
  then have sb: "32 \<notin> set (py_strip ?b)" "45 \<notin> set (py_strip ?b)" using set_py_strip by blast+
  show "32 \<notin> set (convertHumanNameToDotNodeName name)"
    "45 \<notin> set (convertHumanNameToDotNodeName name)"
    "8216 \<notin> set (convertHumanNameToDotNodeName name)"
    unfolding convert_unfold using sb by (auto simp: set_py_replace_single split: if_splits)
qed

lemma map_ends:
  assumes "s \<noteq> []"
  shows "hd (concat (map (\<lambda>x. if x = c then [d] else [x]) s)) = (if hd s = c then d else hd s)"
    and "last (concat (map (\<lambda>x. if x = c then [d] else [x]) s)) = (if last s = c then d else last s)"
    and "concat (map (\<lambda>x. if x = c then [d] else [x]) s) \<noteq> []"
  using assms by (induction s) (auto split: if_splits)

lemma replace_char_stripped:
  assumes "py_strip z = z" and "\<not> isspace d"
  shows "py_strip (py_replace [c] [d] z) = py_replace [c] [d] z"
proof (cases "z = []")
  case True
  then show ?thesis by (simp add: py_replace_single py_strip_Nil)
next
  case False
  then have "py_strip z \<noteq> []" using assms(1) by simp
  then have "\<not> isspace (hd (py_strip z))" "\<not> isspace (last (py_strip z))"
    by (rule py_strip_ends)+
  then have e: "\<not> isspace (hd z)" "\<not> isspace (last z)" using assms(1) by simp_all
  show ?thesis unfolding py_replace_single
    by (rule py_strip_noop, rule disjI2) (use e False assms(2) in \<open>simp add: map_ends\<close>)
qed

lemma convert_stripped:
  "py_strip (convertHumanNameToDotNodeName name) = convertHumanNameToDotNodeName name"
  unfolding convert_unfold
  by (rule replace_char_stripped) (simp_all add: py_strip_idem isspace_simps)

lemma convert_idem:
  "convertHumanNameToDotNodeName (convertHumanNameToDotNodeName name) = convertHumanNameToDotNodeName name"
proof -
  let ?y = "convertHumanNameToDotNodeName name"
  have "convertHumanNameToDotNodeName ?y =
     py_replace [8216] [95] (py_strip (py_replace [45] [] (py_strip (py_replace [32] [95] (py_strip ?y)))))"
    by (rule convert_unfold)
  also have "\<dots> = ?y"
    by (simp add: convert_stripped py_replace_single_absent convert_no_chars)
  finally show ?thesis .
qed


lemma replace_chain_charwise:
  "py_replace [8216] [95] (py_replace [45] [] (py_replace [32] [95] (s::pystr))) =
     concat (map (\<lambda>c. if c = 32 \<or> c = 8216 then [95] else if c = 45 then [] else [c]) s)"
  by (induction s) (simp_all add: py_replace_single)

lemma in_py_replace_single:
  "x \<in> set (py_replace [c] new s) \<Longrightarrow> x \<in> set new \<or> (x \<in> set s \<and> x \<noteq> c)"
  by (induction s) (auto simp: py_replace_single split: if_splits)

lemma convert_charwise:
  assumes "\<forall>c\<in>set (py_strip name). isspace c \<longrightarrow> c = 32"
  shows "convertHumanNameToDotNodeName name =
     concat (map (\<lambda>c. if c = 32 \<or> c = 8216 then [95] else if c = 45 then [] else [c]) (py_strip name))"
proof -
  let ?s = "py_strip name"
  let ?a = "py_replace [32] [95] ?s"
  let ?b = "py_replace [45] [] ?a"
  have a: "\<not> isspace c" if "c \<in> set ?a" for c
  proof -
    from in_py_replace_single [OF that] have "c = 95 \<or> (c \<in> set ?s \<and> c \<noteq> 32)" by simp
    then show ?thesis
    proof
      assume "c = 95" then show ?thesis by (simp add: isspace_simps)
    next
      assume "c \<in> set ?s \<and> c \<noteq> 32" then show ?thesis using assms by blast
    qed
  qed
  then have sa: "py_strip ?a = ?a" by (intro py_strip_no_space) blast
  have b: "\<not> isspace c" if "c \<in> set ?b" for c
  proof -
    from in_py_replace_single [OF that] have "c \<in> set ?a" by simp
    then show ?thesis by (rule a)
  qed
  then have sb: "py_strip ?b = ?b" by (intro py_strip_no_space) blast
  show ?thesis unfolding convert_unfold sa sb by (rule replace_chain_charwise)
qed

section \<open>Claims about the entity model\<close>

text \<open>
  Claim C2, as amended. The node name of a full name is the name trimmed, with spaces
  turned into underscores, hyphens removed and the quote character U+2018 turned into an
  underscore (not removed), trimming again before each replacement. Deriving it again from
  itself gives the same node name, and it contains no space, no hyphen and no U+2018. When
  the trimmed name has no white space other than spaces, the node name is the trimmed name
  with each character replaced on its own.
\<close>

theorem nodeId_normalised:
  "convertHumanNameToDotNodeName (convertHumanNameToDotNodeName name)
     = convertHumanNameToDotNodeName name
   \<and> 32 \<notin> set (convertHumanNameToDotNodeName name)
   \<and> 45 \<notin> set (convertHumanNameToDotNodeName name)
   \<and> 8216 \<notin> set (convertHumanNameToDotNodeName name)
   \<and> ((\<forall>c\<in>set (py_strip name). isspace c \<longrightarrow> c = 32) \<longrightarrow>
        convertHumanNameToDotNodeName name =
          concat (map (\<lambda>c. if c = 32 \<or> c = 8216 then [95] else if c = 45 then [] else [c])
                      (py_strip name)))"
  by (intro conjI impI convert_idem convert_no_chars convert_charwise)

lemma anne_strip:
  "py_strip (str '' Anne-Marie O'' @ [8216] @ str ''Neil '') = str ''Anne-Marie O'' @ [8216] @ str ''Neil''"
  by (simp add: str_def py_strip_def isspace_def)

theorem nodeId_normalised_witness:
  "list_all (\<lambda>c. isspace c \<longrightarrow> c = 32) (py_strip (str '' Anne-Marie O'' @ [8216] @ str ''Neil ''))
   \<and> convertHumanNameToDotNodeName (str '' Anne-Marie O'' @ [8216] @ str ''Neil '')
       = str ''AnneMarie_O_Neil''"
proof -
  have h: "\<forall>c\<in>set (py_strip (str '' Anne-Marie O'' @ [8216] @ str ''Neil '')). isspace c \<longrightarrow> c = 32"
    unfolding anne_strip by (simp add: str_def isspace_def)
  from nodeId_normalised [of "str '' Anne-Marie O'' @ [8216] @ str ''Neil ''"] h
  have "convertHumanNameToDotNodeName (str '' Anne-Marie O'' @ [8216] @ str ''Neil '') =
          concat (map (\<lambda>c. if c = 32 \<or> c = 8216 then [95] else if c = 45 then [] else [c])
                      (py_strip (str '' Anne-Marie O'' @ [8216] @ str ''Neil '')))"
    by blast
  also have "\<dots> = str ''AnneMarie_O_Neil''"
    unfolding anne_strip by (simp add: str_def)
  finally show ?thesis using h by (simp add: list_all_iff)
qed

lemma sanitize_chain:
  "py_replace [124] [32] (py_replace [38] [38, 97, 109, 112, 59] (raw::pystr)) =
     concat (map (\<lambda>c. if c = 38 then [38, 97, 109, 112, 59] else if c = 124 then [32] else [c]) raw)"
  by (induction raw) (simp_all add: py_replace_single)

lemma sanitize_spec_code:
  "sanitize_spec raw = py_strip (py_replace (str ''|'') (str '' '') (py_replace (str ''&'') (str ''&amp;'') raw))"
  unfolding sanitize_spec_def str_simps sanitize_chain ..

lemma getAttribute_present:
  "map_of (attributes p) key = Some raw \<Longrightarrow>
     getAttribute p key = (if sanitize_spec raw = [] then str ''Unknown: '' @ key else sanitize_spec raw)"
  by (simp add: getAttribute_def sanitize_spec_code Let_def)

lemma getAttribute_absent:
  "map_of (attributes p) key = None \<Longrightarrow> getAttribute p key = str ''Unknown: '' @ key"
  by (simp add: getAttribute_def)

lemma sanitize_all_space:
  assumes "\<forall>c\<in>set raw. isspace c"
  shows "sanitize_spec raw = []"
proof -
  have "38 \<notin> set raw" using assms by (auto simp: isspace_def)
  then have "concat (map (\<lambda>c. if c = 38 then str ''&amp;'' else if c = 124 then [32] else [c]) raw)
     = map (\<lambda>c. if c = 124 then 32 else c) raw"
    by (induction raw) auto
  moreover have "\<forall>c\<in>set (map (\<lambda>c. if c = 124 then 32 else c) raw). isspace c"
    using assms by (auto simp: isspace_simps)
  ultimately show ?thesis unfolding sanitize_spec_def by (simp only: py_strip_all_space)
qed

text \<open>
  Claim C10. Reading an attribute gives the stored value with every \<^verbatim>\<open>&\<close> replaced by
  \<^verbatim>\<open>&amp;\<close>, every \<^verbatim>\<open>|\<close> replaced by a space, and trimmed; when the key is absent or
  that value is empty, it gives \<^verbatim>\<open>Unknown: \<close> followed by the key. In particular a
  stored value of white space only reads as the placeholder.
\<close>

theorem getAttribute_sanitises:
  "getAttribute p key =
     (case map_of (attributes p) key of
        None \<Rightarrow> str ''Unknown: '' @ key
      | Some raw \<Rightarrow> if sanitize_spec raw = [] then str ''Unknown: '' @ key else sanitize_spec raw)
   \<and> (\<forall>raw. map_of (attributes p) key = Some raw \<and> (\<forall>c\<in>set raw. isspace c) \<longrightarrow>
         getAttribute p key = str ''Unknown: '' @ key)"
proof (intro conjI allI impI)
  show "getAttribute p key =
     (case map_of (attributes p) key of
        None \<Rightarrow> str ''Unknown: '' @ key
      | Some raw \<Rightarrow> if sanitize_spec raw = [] then str ''Unknown: '' @ key else sanitize_spec raw)"
    by (cases "map_of (attributes p) key") (simp_all add: getAttribute_present getAttribute_absent)
next
  fix raw assume "map_of (attributes p) key = Some raw \<and> (\<forall>c\<in>set raw. isspace c)"
  then show "getAttribute p key = str ''Unknown: '' @ key"
    by (simp add: getAttribute_present sanitize_all_space)
qed

theorem getAttribute_sanitises_witness:
  "map_of (attributes person_rd) (str ''country'') = Some [32, 9]
   \<and> list_all isspace [32, 9]
   \<and> getAttribute person_rd (str ''country'') = str ''Unknown: country''
   \<and> getAttribute person_rd (str ''title'') = str ''R&amp;D Ops''"
  using getAttribute_sanitises [of person_rd "str ''country''"]
        getAttribute_sanitises [of person_rd "str ''title''"]
  by (simp add: person_rd_def str_def sanitize_spec_def py_strip_def isspace_def)

section \<open>Claims about coercion and filtering\<close>

lemma setDmu_unknown:
  assumes "py_strip (str_upper u v) \<notin>
           {str ''D'', str ''DECISION MAKER'', str ''DM'', str ''B'', str ''BUYER'', str ''BUY'',
            str ''I'', str ''INFLUENCER'', str ''G'', str ''GATEKEEPER'', str ''U'', str ''USER''}"
  shows "\<exists>w. setDmu u v p = (p\<lparr>dmu := str ''U''\<rparr>, [w])"
  using assms by (simp add: setDmu_def Let_def)

lemma setSentiment_unknown:
  assumes "py_strip (str_upper u v) \<notin>
           {str ''P'', str ''PROMOTOR'', str ''PROMOTER'', str ''PROPONENT'', str ''O'',
            str ''OPPONENT'', str ''N'', str ''NEUTRAL''}"
  shows "\<exists>w. setSentiment u v p = (p\<lparr>sentiment := str ''N''\<rparr>, [w])"
  using assms by (simp add: setSentiment_def Let_def)

lemma py_find_absent: "c \<notin> set s \<Longrightarrow> py_find [c] s = None"
  by (induction s) auto

lemma py_find_first:
  "c \<notin> set k \<Longrightarrow> py_find [c] (k @ c # v) = Some (length k)"
  by (induction k) auto

lemma py_split1_first:
  "c \<notin> set k \<Longrightarrow> py_split1 [c] (k @ c # v) = [k, v]"
  by (simp add: py_split1_def py_find_first)

lemma parsePersonProperty_dmu_unknown:
  assumes key: "58 \<notin> set key" "str_lower u (py_strip key) = str ''dmu''"
    and last: "getLastPerson model = Inr (k, p)"
    and unk: "py_strip (str_upper u (py_strip v)) \<notin>
           {str ''D'', str ''DECISION MAKER'', str ''DM'', str ''B'', str ''BUYER'', str ''BUY'',
            str ''I'', str ''INFLUENCER'', str ''G'', str ''GATEKEEPER'', str ''U'', str ''USER''}"
  shows "\<exists>w. parsePersonProperty u (model, log) (key @ str '':'' @ v)
            = Inr (putLastPerson k (p\<lparr>dmu := str ''U''\<rparr>) model, log @ [w])"
proof -
  from setDmu_unknown [OF unk] obtain w where
    w: "setDmu u (py_strip v) p = (p\<lparr>dmu := str ''U''\<rparr>, [w])" by blast
  have ne: "str ''dmu'' \<noteq> str ''influence''" "str ''dmu'' \<noteq> str ''sentiment''"
    by (simp_all add: str_def)
  have sp: "py_split1 (str '':'') (key @ str '':'' @ v) = [key, v]"
    using py_split1_first [OF key(1)] by (simp add: str_simps)
  show ?thesis
    by (rule exI [of _ w]) (simp add: parsePersonProperty_def sp Let_def key(2) ne last w)
qed

lemma parsePersonProperty_sentiment_unknown:
  assumes key: "58 \<notin> set key" "str_lower u (py_strip key) = str ''sentiment''"
    and last: "getLastPerson model = Inr (k, p)"
    and unk: "py_strip (str_upper u (py_strip v)) \<notin>
           {str ''P'', str ''PROMOTOR'', str ''PROMOTER'', str ''PROPONENT'', str ''O'',
            str ''OPPONENT'', str ''N'', str ''NEUTRAL''}"
  shows "\<exists>w. parsePersonProperty u (model, log) (key @ str '':'' @ v)
            = Inr (putLastPerson k (p\<lparr>sentiment := str ''N''\<rparr>) model, log @ [w])"
proof -
  from setSentiment_unknown [OF unk] obtain w where
    w: "setSentiment u (py_strip v) p = (p\<lparr>sentiment := str ''N''\<rparr>, [w])" by blast
  have ne: "str ''sentiment'' \<noteq> str ''influence''"
    by (simp_all add: str_def)
  have sp: "py_split1 (str '':'') (key @ str '':'' @ v) = [key, v]"
    using py_split1_first [OF key(1)] by (simp add: str_simps)
  show ?thesis
    by (rule exI [of _ w]) (simp add: parsePersonProperty_def sp Let_def key(2) ne last w)
qed

text \<open>
  Claim C5. A value that, upper-cased and trimmed, is none of the aliases of the dmu
  setter makes it set the field to \<^verbatim>\<open>U\<close> (User) and log exactly one warning; the same
  for the sentiment setter, with \<^verbatim>\<open>N\<close> (Neutral). Neither setter can raise. A property
  line with the key \<^verbatim>\<open>dmu\<close> or \<^verbatim>\<open>sentiment\<close> and such a value, for a declared person, is
  parsed without error: it changes that field of the last person, adds one warning, and
  changes nothing else.
\<close>

theorem unrecognised_value_defaults:
  "(py_strip (str_upper u v) \<notin>
       {str ''D'', str ''DECISION MAKER'', str ''DM'', str ''B'', str ''BUYER'', str ''BUY'',
        str ''I'', str ''INFLUENCER'', str ''G'', str ''GATEKEEPER'', str ''U'', str ''USER''}
     \<longrightarrow> (\<exists>w. setDmu u v p = (p\<lparr>dmu := str ''U''\<rparr>, [w])))
   \<and> (py_strip (str_upper u v) \<notin>
       {str ''P'', str ''PROMOTOR'', str ''PROMOTER'', str ''PROPONENT'', str ''O'',
        str ''OPPONENT'', str ''N'', str ''NEUTRAL''}
     \<longrightarrow> (\<exists>w. setSentiment u v p = (p\<lparr>sentiment := str ''N''\<rparr>, [w])))
   \<and> (58 \<notin> set key \<and> str_lower u (py_strip key) = str ''dmu''
       \<and> getLastPerson model = Inr (k, q)
       \<and> py_strip (str_upper u (py_strip v)) \<notin>
           {str ''D'', str ''DECISION MAKER'', str ''DM'', str ''B'', str ''BUYER'', str ''BUY'',
            str ''I'', str ''INFLUENCER'', str ''G'', str ''GATEKEEPER'', str ''U'', str ''USER''}
     \<longrightarrow> (\<exists>w. parsePersonProperty u (model, log) (key @ str '':'' @ v)
              = Inr (putLastPerson k (q\<lparr>dmu := str ''U''\<rparr>) model, log @ [w])))
   \<and> (58 \<notin> set key \<and> str_lower u (py_strip key) = str ''sentiment''
       \<and> getLastPerson model = Inr (k, q)
       \<and> py_strip (str_upper u (py_strip v)) \<notin>
           {str ''P'', str ''PROMOTOR'', str ''PROMOTER'', str ''PROPONENT'', str ''O'',
            str ''OPPONENT'', str ''N'', str ''NEUTRAL''}
     \<longrightarrow> (\<exists>w. parsePersonProperty u (model, log) (key @ str '':'' @ v)
              = Inr (putLastPerson k (q\<lparr>sentiment := str ''N''\<rparr>) model, log @ [w])))"
proof (intro conjI impI)
  show "\<exists>w. setDmu u v p = (p\<lparr>dmu := str ''U''\<rparr>, [w])"
    if "py_strip (str_upper u v) \<notin>
       {str ''D'', str ''DECISION MAKER'', str ''DM'', str ''B'', str ''BUYER'', str ''BUY'',
        str ''I'', str ''INFLUENCER'', str ''G'', str ''GATEKEEPER'', str ''U'', str ''USER''}"
    using that by (rule setDmu_unknown)
  show "\<exists>w. setSentiment u v p = (p\<lparr>sentiment := str ''N''\<rparr>, [w])"
    if "py_strip (str_upper u v) \<notin>
       {str ''P'', str ''PROMOTOR'', str ''PROMOTER'', str ''PROPONENT'', str ''O'',
        str ''OPPONENT'', str ''N'', str ''NEUTRAL''}"
    using that by (rule setSentiment_unknown)
  show "\<exists>w. parsePersonProperty u (model, log) (key @ str '':'' @ v)
              = Inr (putLastPerson k (q\<lparr>dmu := str ''U''\<rparr>) model, log @ [w])"
    if "58 \<notin> set key \<and> str_lower u (py_strip key) = str ''dmu''
       \<and> getLastPerson model = Inr (k, q)
       \<and> py_strip (str_upper u (py_strip v)) \<notin>
           {str ''D'', str ''DECISION MAKER'', str ''DM'', str ''B'', str ''BUYER'', str ''BUY'',
            str ''I'', str ''INFLUENCER'', str ''G'', str ''GATEKEEPER'', str ''U'', str ''USER''}"
    using that by (elim conjE) (rule parsePersonProperty_dmu_unknown)
  show "\<exists>w. parsePersonProperty u (model, log) (key @ str '':'' @ v)
              = Inr (putLastPerson k (q\<lparr>sentiment := str ''N''\<rparr>) model, log @ [w])"
    if "58 \<notin> set key \<and> str_lower u (py_strip key) = str ''sentiment''
       \<and> getLastPerson model = Inr (k, q)
       \<and> py_strip (str_upper u (py_strip v)) \<notin>
           {str ''P'', str ''PROMOTOR'', str ''PROMOTER'', str ''PROPONENT'', str ''O'',
            str ''OPPONENT'', str ''N'', str ''NEUTRAL''}"
    using that by (elim conjE) (rule parsePersonProperty_sentiment_unknown)
qed

theorem unrecognised_value_defaults_witness:
  "(\<exists>w. setDmu ascii_db (str '' boss'') person_rd = (person_rd\<lparr>dmu := str ''U''\<rparr>, [w]))
   \<and> (\<exists>w. setSentiment ascii_db (str '' boss'') person_rd
            = (person_rd\<lparr>sentiment := str ''N''\<rparr>, [w]))
   \<and> (\<exists>w. parsePersonProperty ascii_db (model_alice, []) (str ''dmu'' @ str '':'' @ str '' boss'')
            = Inr (putLastPerson (str ''Alice'') (person_rd\<lparr>dmu := str ''U''\<rparr>) model_alice,
                   [] @ [w]))"
proof -
  have up: "py_strip (str_upper ascii_db (str '' boss'')) = str ''BOSS''"
       "py_strip (str_upper ascii_db (py_strip (str '' boss''))) = str ''BOSS''"
    by (simp_all add: ascii_db_def str_def py_strip_def isspace_def)
  have h1: "py_strip (str_upper ascii_db (str '' boss'')) \<notin>
       {str ''D'', str ''DECISION MAKER'', str ''DM'', str ''B'', str ''BUYER'', str ''BUY'',
        str ''I'', str ''INFLUENCER'', str ''G'', str ''GATEKEEPER'', str ''U'', str ''USER''}"
    unfolding up by (simp add: str_def)
  have h2: "py_strip (str_upper ascii_db (str '' boss'')) \<notin>
       {str ''P'', str ''PROMOTOR'', str ''PROMOTER'', str ''PROPONENT'', str ''O'',
        str ''OPPONENT'', str ''N'', str ''NEUTRAL''}"
    unfolding up by (simp add: str_def)
  have h3: "58 \<notin> set (str ''dmu'') \<and> str_lower ascii_db (py_strip (str ''dmu'')) = str ''dmu''
       \<and> getLastPerson model_alice = Inr (str ''Alice'', person_rd)
       \<and> py_strip (str_upper ascii_db (py_strip (str '' boss''))) \<notin>
           {str ''D'', str ''DECISION MAKER'', str ''DM'', str ''B'', str ''BUYER'', str ''BUY'',
            str ''I'', str ''INFLUENCER'', str ''G'', str ''GATEKEEPER'', str ''U'', str ''USER''}"
    unfolding up
    by (simp add: str_def ascii_db_def py_strip_def isspace_def getLastPerson_def model_alice_def)
  note t = unrecognised_value_defaults [where u = ascii_db and v = "str '' boss''"
      and p = person_rd and key = "str ''dmu''" and model = model_alice
      and k = "str ''Alice''" and q = person_rd and log = "[]"]
  note c1 = t [THEN conjunct1, THEN mp, OF h1]
  note c2 = t [THEN conjunct2, THEN conjunct1, THEN mp, OF h2]
  note c3 = t [THEN conjunct2, THEN conjunct2, THEN conjunct1, THEN mp, OF h3]
  from c1 c2 c3 show ?thesis by (intro conjI)
qed

lemma py_in_sublist: "py_in sub s \<longleftrightarrow> sublist sub s"
  unfolding py_in_def
  by (induction s) (auto simp: sublist_Cons_right)

lemma py_in_single: "py_in [c] s \<longleftrightarrow> c \<in> set s"
  unfolding py_in_def
  by (induction s) auto

lemma first_split_unique:
  assumes "k @ c # v = k' @ c # v'" and "c \<notin> set k" and "c \<notin> set k'"
  shows "k = k' \<and> v = v'"
  using assms
proof (induction k arbitrary: k')
  case Nil
  then show ?case by (cases k') auto
next
  case (Cons a k)
  then show ?case by (cases k') auto
qed

lemma attributeSearchExcludes_iff:
  "attributeSearchExcludes p a \<longleftrightarrow>
     (\<exists>k v. a = k @ str ''='' @ v \<and> 61 \<notin> set k
            \<and> \<not> sublist (py_strip v) (getAttribute p (py_strip k)))"
proof (cases "61 \<in> set a")
  case False
  then have "\<not> attributeSearchExcludes p a"
    by (simp add: attributeSearchExcludes_def str_simps py_in_single)
  moreover have "\<not> (\<exists>k v. a = k @ str ''='' @ v \<and> 61 \<notin> set k
            \<and> \<not> sublist (py_strip v) (getAttribute p (py_strip k)))"
    using False by (auto simp: str_simps)
  ultimately show ?thesis by blast
next
  case True
  then obtain k v where a: "a = k @ 61 # v" and k: "61 \<notin> set k"
    by (meson split_list_first)
  have ex: "attributeSearchExcludes p a \<longleftrightarrow> \<not> sublist (py_strip v) (getAttribute p (py_strip k))"
    using True by (simp add: attributeSearchExcludes_def str_simps py_in_single a
        py_split1_first [OF k] py_in_sublist [of "py_strip v"])
  show ?thesis
  proof
    assume "attributeSearchExcludes p a"
    with ex a k show "\<exists>k v. a = k @ str ''='' @ v \<and> 61 \<notin> set k
            \<and> \<not> sublist (py_strip v) (getAttribute p (py_strip k))"
      by (intro exI [of _ k] exI [of _ v]) (simp add: str_simps)
  next
    assume "\<exists>k v. a = k @ str ''='' @ v \<and> 61 \<notin> set k
            \<and> \<not> sublist (py_strip v) (getAttribute p (py_strip k))"
    then obtain k' v' where a': "a = k' @ 61 # v'" and k': "61 \<notin> set k'"
      and n: "\<not> sublist (py_strip v') (getAttribute p (py_strip k'))"
      by (auto simp: str_simps)
    from a a' have "k @ 61 # v = k' @ 61 # v'" by simp
    from first_split_unique [OF this k k'] have "k = k'" "v = v'" by simp_all
    with n ex show "attributeSearchExcludes p a" by simp
  qed
qed

lemma attributeMatchesLoop_iff:
  "attributeMatchesLoop p as \<longleftrightarrow> (\<exists>a\<in>set as. attributeSearchExcludes p a)"
  by (induction as) auto

text \<open>
  Claim C6. A person is not excluded exactly when the three axes pass: for every entry
  of the attribute criteria that splits at its first \<^verbatim>\<open>=\<close> into a key and a value, the
  trimmed value occurs in what reading the trimmed key gives (for a key the person does
  not have, the placeholder \<^verbatim>\<open>Unknown: \<close> followed by the key); the person's team is among
  the allowed teams; the person's influence is among the allowed influences. An empty list
  of criteria constrains nothing on its axis, and an entry without \<^verbatim>\<open>=\<close> is skipped.
\<close>

theorem isPersonExcluded_iff:
  "(\<not> isPersonExcluded args p \<longleftrightarrow>
      (\<forall>a\<in>set (attributeMatches args). \<forall>k v. a = k @ str ''='' @ v \<and> 61 \<notin> set k \<longrightarrow>
          sublist (py_strip v) (getAttribute p (py_strip k)))
      \<and> (teams_arg args = [] \<or> team p \<in> set (teams_arg args))
      \<and> (influence_arg args = [] \<or> influence p \<in> set (influence_arg args)))
   \<and> (map_of (attributes p) key = None \<longrightarrow> getAttribute p key = str ''Unknown: '' @ key)"
proof (intro conjI impI)
  have "isPersonExcluded args p \<longleftrightarrow>
      (\<exists>a\<in>set (attributeMatches args). attributeSearchExcludes p a)
      \<or> (teams_arg args \<noteq> [] \<and> team p \<notin> set (teams_arg args))
      \<or> (influence_arg args \<noteq> [] \<and> influence p \<notin> set (influence_arg args))"
    unfolding isPersonExcluded_def attributeMatchesLoop_iff
    by (cases "attributeMatches args") auto
  then show "\<not> isPersonExcluded args p \<longleftrightarrow>
      (\<forall>a\<in>set (attributeMatches args). \<forall>k v. a = k @ str ''='' @ v \<and> 61 \<notin> set k \<longrightarrow>
          sublist (py_strip v) (getAttribute p (py_strip k)))
      \<and> (teams_arg args = [] \<or> team p \<in> set (teams_arg args))
      \<and> (influence_arg args = [] \<or> influence p \<in> set (influence_arg args))"
    unfolding attributeSearchExcludes_iff by blast
next
  assume "map_of (attributes p) key = None"
  then show "getAttribute p key = str ''Unknown: '' @ key" by (rule getAttribute_absent)
qed

lemma rd_title: "getAttribute person_rd (str ''title'') = str ''R&amp;D Ops''"
  by (simp add: getAttribute_def person_rd_def str_def py_replace_single py_strip_def isspace_def)

lemma rd_not_excluded: "\<not> isPersonExcluded args_rd person_rd"
proof -
  have s: "py_split1 (str ''='') (str ''title = D Ops'') = [str ''title '', str '' D Ops'']"
    using py_split1_first [of 61 "str ''title ''" "str '' D Ops''"] by (simp add: str_def)
  have st: "py_strip (str ''title '') = str ''title''" "py_strip (str '' D Ops'') = str ''D Ops''"
    by (simp_all add: str_def py_strip_def isspace_def)
  have i1: "py_in (str ''='') (str ''title = D Ops'')" "\<not> py_in (str ''='') (str ''nokey'')"
    by (simp_all add: str_simps py_in_single) (simp_all add: str_def)
  have i2: "py_in (str ''D Ops'') (str ''R&amp;D Ops'')"
    by (simp add: py_in_def str_def)
  have a: "\<not> attributeSearchExcludes person_rd (str ''title = D Ops'')"
          "\<not> attributeSearchExcludes person_rd (str ''nokey'')"
    by (simp_all add: attributeSearchExcludes_def i1 s st rd_title i2)
  have f: "team person_rd = str ''Eng''" "influence person_rd = []"
    by (simp_all add: person_rd_def)
  show ?thesis
    by (simp add: isPersonExcluded_def args_rd_def default_args_def a f)
qed

theorem isPersonExcluded_iff_witness:
  "\<not> isPersonExcluded args_rd person_rd
   \<and> sublist (py_strip (str '' D Ops'')) (getAttribute person_rd (py_strip (str ''title '')))
   \<and> team person_rd \<in> set (teams_arg args_rd)
   \<and> influence person_rd \<in> set (influence_arg args_rd)"
proof -
  note t = isPersonExcluded_iff [of args_rd person_rd "str ''title''", THEN conjunct1, THEN iffD1,
      OF rd_not_excluded]
  have m: "str ''title = D Ops'' \<in> set (attributeMatches args_rd)"
    by (simp add: args_rd_def default_args_def)
  have e: "str ''title = D Ops'' = str ''title '' @ str ''='' @ str '' D Ops'' \<and> 61 \<notin> set (str ''title '')"
    by (simp add: str_def)
  from t have "\<forall>a\<in>set (attributeMatches args_rd). \<forall>k v. a = k @ str ''='' @ v \<and> 61 \<notin> set k \<longrightarrow>
          sublist (py_strip v) (getAttribute person_rd (py_strip k))" by (rule conjunct1)
  from this [rule_format, OF m e]
  have c: "sublist (py_strip (str '' D Ops'')) (getAttribute person_rd (py_strip (str ''title '')))" .
  have ne: "teams_arg args_rd \<noteq> []" "influence_arg args_rd \<noteq> []"
    by (simp_all add: args_rd_def default_args_def)
  from t ne have "team person_rd \<in> set (teams_arg args_rd)"
    "influence person_rd \<in> set (influence_arg args_rd)" by blast+
  with c rd_not_excluded show ?thesis by blast
qed

section \<open>The parser and the renderer on concrete documents\<close>

lemmas run_parser =
  parseModel_def parseLine_def parseConnection_def parsePersonProperty_def addPerson_def
  addConnection_def addTeam_def getLastPerson_def putLastPerson_def Person_init_def
  name_fullmatch_def ascii_db_def Model_init_def convertHumanNameToDotNodeName_def
  setDmu_def setSentiment_def setInfluence_def setTeam_def setAttribute_def
  str_def py_strip_def isspace_def py_in_def py_split1_def py_replace_single Let_def

text \<open>
  Claim C1 fails on the code. After the warning for an indented line that is neither a
  connection nor a property, \<^verbatim>\<open>parseModel\<close> has no \<^verbatim>\<open>continue\<close> and goes on to
  \<^verbatim>\<open>model.addPerson(line)\<close>: the document \<^verbatim>\<open>Alice\<close>, newline, tab, \<^verbatim>\<open>foo\<close> gives a model
  with a second person \<^verbatim>\<open>foo\<close>, who is also the last person, where the document
  \<^verbatim>\<open>Alice\<close> alone gives one person.
\<close>

theorem unparsable_line_declares_person:
  "parseModel ascii_db (str ''Alice\<newline>'' @ [9] @ str ''foo'') =
     Inr (\<lparr> title = str ''Untitled Organization'',
            people = [(str ''Alice'', \<lparr> fullName = str ''Alice'', dotNodeName = str ''Alice'',
                         team = str ''??'', influence = [], dmu = str ''U'', sentiment = str ''N'',
                         attributes = [] \<rparr>),
                      (str ''foo'', \<lparr> fullName = str ''foo'', dotNodeName = str ''foo'',
                         team = str ''??'', influence = [], dmu = str ''U'', sentiment = str ''N'',
                         attributes = [] \<rparr>)],
            edges = [], teams = {}, lastPerson = Some (str ''foo'') \<rparr>,
          [str ''Cannot parse line: foo''])
   \<and> parseModel ascii_db (str ''Alice'') =
     Inr (\<lparr> title = str ''Untitled Organization'',
            people = [(str ''Alice'', \<lparr> fullName = str ''Alice'', dotNodeName = str ''Alice'',
                         team = str ''??'', influence = [], dmu = str ''U'', sentiment = str ''N'',
                         attributes = [] \<rparr>)],
            edges = [], teams = {}, lastPerson = Some (str ''Alice'') \<rparr>,
          [])"
  by (simp add: run_parser)

text \<open>
  Claim C8 fails on the code. \<^verbatim>\<open>line.replace("@", "")\<close> removes every \<^verbatim>\<open>@\<close> of the line,
  not only the first: the directive \<^verbatim>\<open>@title: a@b\<close> sets the title \<^verbatim>\<open>ab\<close>, and the key
  \<^verbatim>\<open>@title\<close> of \<^verbatim>\<open>@@title: x\<close> is taken for \<^verbatim>\<open>title\<close>.
\<close>

theorem directive_loses_every_at:
  "parseModel ascii_db (str ''@title: a@b'') = Inr (Model_init\<lparr>title := str ''ab''\<rparr>, [])
   \<and> parseModel ascii_db (str ''@@title: x'') = Inr (Model_init\<lparr>title := str ''x''\<rparr>, [])"
  by (simp add: run_parser)

text \<open>Two lines with the same node name declare one person: claim C3 as stated fails.\<close>

theorem person_count_counterexample:
  "parseModel ascii_db (str ''Alice\<newline>Alice'') =
     Inr (Model_init\<lparr> people := [(str ''Alice'', \<lparr> fullName = str ''Alice'',
                          dotNodeName = str ''Alice'', team = str ''??'', influence = [],
                          dmu = str ''U'', sentiment = str ''N'', attributes = [] \<rparr>)],
                      lastPerson := Some (str ''Alice'') \<rparr>, [])
   \<and> length (filter (\<lambda>l. l \<noteq> []) (py_split_on 10 (str ''Alice\<newline>Alice''))) = 2"
  by (simp add: run_parser)

lemma model_ghost_parsed:
  "parseModel ascii_db (str ''Alice\<newline>'' @ [9] @ str ''team: Sales\<newline>'' @ [9] @ str ''knows -> Ghost'')
     = Inr (model_ghost, [])"
  by (simp add: run_parser model_ghost_def)

lemmas run_renderer =
  getModelAsDot_def getTeamsAsDot_def getLegendAsDot_def isPersonExcluded_def findPerson_def
  getPersonByName_def getAttribute_def getInfluenceStyleAsDot_def getEdgeDotStyle_def
  default_args_def str_nat.simps str_int_def

text \<open>
  An edge whose destination is nobody is dropped without an error when its origin is
  excluded by the filter: claim C4 as stated fails.
\<close>

theorem excluded_origin_counterexample:
  \<open>findPerson model_ghost (str ''Ghost'') = Inl (Exception (str ''Person not found: Ghost''))
   \<and> getModelAsDot args_eng no_pictures sales_first model_ghost =
       Inr (str ''digraph {\<newline>label="Untitled Organization - github.com/jamesread/orgviz"\<newline>labelloc="t"\<newline>fontname=Overpass\<newline>node [fontname=Overpass, shape=record]\<newline>edge [fontname=Overpass, fontsize=9]\<newline>subgraph cluster_1{\<newline>label="Sales"\<newline>style=filled\<newline>fillcolor=skyblue\<newline>}\<newline>}'')\<close>
  by (simp add: run_renderer model_ghost_def args_eng_def sales_first_def str_def)

text \<open>
  Claim C9 fails on the code in its second half. The legend is emitted exactly in the
  influence view when it is not suppressed, but its third entry is named \<^verbatim>\<open>hostile\<close>,
  where the lookup table of \<^verbatim>\<open>getInfluenceStyleAsDot\<close> (and the choices of the option
  \<^verbatim>\<open>--influence\<close>) name the category \<^verbatim>\<open>enemy\<close>: an influence \<^verbatim>\<open>hostile\<close> gets no style.
\<close>

theorem legend_names_hostile:
  "(getLegendAsDot args \<noteq> [] \<longleftrightarrow> vizType args = str ''inf'' \<and> \<not> skipDrawingLegend args)
   \<and> getLegendAsDot args_inf =
       str ''subgraph cluster_00 {\<newline>label=Legend\<newline>fillcolor=beige\<newline>style=filled\<newline>node [fontsize=9]\<newline>supporter [fillcolor=skyblue, style=filled]\<newline>promoter [fillcolor=GreenYellow, style=filled]\<newline>hostile [fillcolor=salmon, style=filled]\<newline>internal [fillcolor=black, fontcolor = white, style=filled]\<newline>}\<newline>''
   \<and> getInfluenceStyleAsDot args_inf (str ''enemy'') = str ''fillcolor=salmon, style=filled''
   \<and> getInfluenceStyleAsDot args_inf (str ''hostile'') = []
   \<and> \<not> py_in (str ''enemy'') (getLegendAsDot args_inf)"
  by (simp add: getLegendAsDot_def getInfluenceStyleAsDot_def args_inf_def default_args_def
      str_def py_in_def py_strip_def isspace_def)

section \<open>Documents of person declarations\<close>

lemma convert_strip: "convertHumanNameToDotNodeName (py_strip l) = convertHumanNameToDotNodeName l"
  by (simp add: convert_unfold py_strip_idem)

lemma addPerson_fields:
  "people (fst (addPerson u l m)) =
     AList.update (convertHumanNameToDotNodeName l) (fst (Person_init u l)) (people m)"
  "edges (fst (addPerson u l m)) = edges m"
  "teams (fst (addPerson u l m)) = teams m"
  "title (fst (addPerson u l m)) = title m"
  by (simp_all add: addPerson_def Person_init_def Let_def convert_strip split: prod.splits)

lemma parseLine_empty: "parseLine u st [] = Inr st"
  by (simp add: parseLine_def split: prod.splits)

lemma parseLine_person:
  assumes "l \<noteq> []" "\<not> prefix [9] l" "\<not> (prefix (str ''@'') l \<and> py_in (str '':'') l)"
  shows "parseLine u (m, log) l = Inr (fst (addPerson u l m), log @ snd (addPerson u l m))"
  using assms by (auto simp: parseLine_def split: prod.splits)

lemma keys_update: "fst ` set (AList.update k v al) = insert k (fst ` set al)"
  by (induction al) auto

lemma parseLines_person_lines:
  assumes "\<forall>l\<in>set ls. \<not> prefix [9] l \<and> \<not> (prefix (str ''@'') l \<and> py_in (str '':'') l)"
  shows "\<exists>m' log'. parseLines u (m, log) ls = Inr (m', log')
           \<and> fst ` set (people m') =
               fst ` set (people m) \<union> convertHumanNameToDotNodeName ` {l \<in> set ls. l \<noteq> []}
           \<and> (distinct (map fst (people m)) \<longrightarrow> distinct (map fst (people m')))
           \<and> edges m' = edges m \<and> teams m' = teams m \<and> title m' = title m"
  using assms
proof (induction ls arbitrary: m log)
  case Nil
  then show ?case by simp
next
  case (Cons l ls)
  then have rest: "\<forall>l\<in>set ls. \<not> prefix [9] l \<and> \<not> (prefix (str ''@'') l \<and> py_in (str '':'') l)"
    and here: "\<not> prefix [9] l" "\<not> (prefix (str ''@'') l \<and> py_in (str '':'') l)" by simp_all
  show ?case
  proof (cases "l = []")
    case True
    from Cons.IH [OF rest, of m log] obtain m' log' where
      r: "parseLines u (m, log) ls = Inr (m', log')"
      "fst ` set (people m') =
         fst ` set (people m) \<union> convertHumanNameToDotNodeName ` {l \<in> set ls. l \<noteq> []}"
      "distinct (map fst (people m)) \<longrightarrow> distinct (map fst (people m'))"
      "edges m' = edges m \<and> teams m' = teams m \<and> title m' = title m" by blast
    have "{x \<in> set (l # ls). x \<noteq> []} = {x \<in> set ls. x \<noteq> []}" using True by auto
    with r show ?thesis using True by (simp add: parseLine_empty)
  next
    case False
    let ?m1 = "fst (addPerson u l m)"
    let ?log1 = "log @ snd (addPerson u l m)"
    have step: "parseLine u (m, log) l = Inr (?m1, ?log1)"
      using False here by (rule parseLine_person)
    from Cons.IH [OF rest, of ?m1 ?log1] obtain m' log' where
      r: "parseLines u (?m1, ?log1) ls = Inr (m', log')"
      "fst ` set (people m') =
         fst ` set (people ?m1) \<union> convertHumanNameToDotNodeName ` {l \<in> set ls. l \<noteq> []}"
      "distinct (map fst (people ?m1)) \<longrightarrow> distinct (map fst (people m'))"
      "edges m' = edges ?m1 \<and> teams m' = teams ?m1 \<and> title m' = title ?m1" by blast
    have s: "{x \<in> set (l # ls). x \<noteq> []} = insert l {x \<in> set ls. x \<noteq> []}"
      using False by auto
    have k: "fst ` set (people ?m1) = insert (convertHumanNameToDotNodeName l) (fst ` set (people m))"
      by (simp add: addPerson_fields keys_update)
    have d: "distinct (map fst (people m)) \<longrightarrow> distinct (map fst (people ?m1))"
      by (simp add: addPerson_fields distinct_update)
    have "parseLines u (m, log) (l # ls) = Inr (m', log')" using step r(1) by simp
    moreover have "fst ` set (people m') =
        fst ` set (people m) \<union> convertHumanNameToDotNodeName ` {x \<in> set (l # ls). x \<noteq> []}"
      unfolding r(2) k s by blast
    moreover have "distinct (map fst (people m)) \<longrightarrow> distinct (map fst (people m'))"
      using d r(3) by blast
    moreover have "edges m' = edges m \<and> teams m' = teams m \<and> title m' = title m"
      using r(4) by (simp add: addPerson_fields)
    ultimately show ?thesis by blast
  qed
qed

text \<open>
  Claim C3, as amended. A document without indented lines and without directives is
  parsed without error; the model has one person for each distinct node name among its
  non-empty lines (so as many persons as non-empty lines when no two of them have the same
  node name, and fewer otherwise), and no edges.
\<close>

theorem person_lines_only:
  assumes "\<forall>l\<in>set (py_split_on 10 contents).
             \<not> prefix [9] l \<and> \<not> (prefix (str ''@'') l \<and> py_in (str '':'') l)"
  shows "\<exists>m log. parseModel u contents = Inr (m, log)
           \<and> length (people m) =
               card (convertHumanNameToDotNodeName ` {l \<in> set (py_split_on 10 contents). l \<noteq> []})
           \<and> (distinct (map convertHumanNameToDotNodeName
                          (filter (\<lambda>l. l \<noteq> []) (py_split_on 10 contents))) \<longrightarrow>
                length (people m) = length (filter (\<lambda>l. l \<noteq> []) (py_split_on 10 contents)))
           \<and> edges m = []"
proof -
  let ?ls = "py_split_on 10 contents"
  from parseLines_person_lines [OF assms, of u Model_init "[]"] obtain m log where
    r: "parseLines u (Model_init, []) ?ls = Inr (m, log)"
    "fst ` set (people m) =
       fst ` set (people Model_init) \<union> convertHumanNameToDotNodeName ` {l \<in> set ?ls. l \<noteq> []}"
    "distinct (map fst (people Model_init)) \<longrightarrow> distinct (map fst (people m))"
    "edges m = edges Model_init \<and> teams m = teams Model_init \<and> title m = title Model_init"
    by blast
  have d: "distinct (map fst (people m))" using r(3) by (simp add: Model_init_def)
  have k: "set (map fst (people m)) = convertHumanNameToDotNodeName ` {l \<in> set ?ls. l \<noteq> []}"
    using r(2) by (simp add: Model_init_def)
  have "length (people m) = length (map fst (people m))" by simp
  also have "\<dots> = card (set (map fst (people m)))" using d by (simp only: distinct_card)
  finally have c: "length (people m) = card (convertHumanNameToDotNodeName ` {l \<in> set ?ls. l \<noteq> []})"
    unfolding k .
  have dl: "length (people m) = length (filter (\<lambda>l. l \<noteq> []) ?ls)"
    if "distinct (map convertHumanNameToDotNodeName (filter (\<lambda>l. l \<noteq> []) ?ls))"
  proof -
    have "convertHumanNameToDotNodeName ` {l \<in> set ?ls. l \<noteq> []}
        = set (map convertHumanNameToDotNodeName (filter (\<lambda>l. l \<noteq> []) ?ls))" by auto
    then have "length (people m) = card (set (map convertHumanNameToDotNodeName (filter (\<lambda>l. l \<noteq> []) ?ls)))"
      using c by simp
    also have "\<dots> = length (map convertHumanNameToDotNodeName (filter (\<lambda>l. l \<noteq> []) ?ls))"
      using that by (rule distinct_card)
    finally show ?thesis by simp
  qed
  have e: "edges m = []" using r(4) by (simp add: Model_init_def)
  show ?thesis unfolding parseModel_def using r(1) c dl e by blast
qed

theorem person_lines_only_witness:
  "list_all (\<lambda>l. \<not> prefix [9] l \<and> \<not> (prefix (str ''@'') l \<and> py_in (str '':'') l))
     (py_split_on 10 (str ''Alice\<newline>\<newline>Bob Ray''))
   \<and> (\<exists>m log. parseModel ascii_db (str ''Alice\<newline>\<newline>Bob Ray'') = Inr (m, log)
         \<and> length (people m) = 2 \<and> edges m = [])"
proof -
  have ls: "py_split_on 10 (str ''Alice\<newline>\<newline>Bob Ray'') = [str ''Alice'', [], str ''Bob Ray'']"
    by (simp add: str_def)
  have h: "\<forall>l\<in>set (py_split_on 10 (str ''Alice\<newline>\<newline>Bob Ray'')).
             \<not> prefix [9] l \<and> \<not> (prefix (str ''@'') l \<and> py_in (str '':'') l)"
    unfolding ls by (simp add: str_def)
  have f: "filter (\<lambda>l. l \<noteq> []) [str ''Alice'', [], str ''Bob Ray''] = [str ''Alice'', str ''Bob Ray'']"
    by (simp add: str_def)
  have d: "distinct (map convertHumanNameToDotNodeName
              (filter (\<lambda>l. l \<noteq> []) (py_split_on 10 (str ''Alice\<newline>\<newline>Bob Ray''))))"
    unfolding ls f
    by (simp add: convertHumanNameToDotNodeName_def str_def py_strip_def isspace_def py_replace_single)
  from person_lines_only [OF h, of ascii_db] obtain m log where
    r: "parseModel ascii_db (str ''Alice\<newline>\<newline>Bob Ray'') = Inr (m, log)"
    "distinct (map convertHumanNameToDotNodeName
        (filter (\<lambda>l. l \<noteq> []) (py_split_on 10 (str ''Alice\<newline>\<newline>Bob Ray'')))) \<longrightarrow>
     length (people m) = length (filter (\<lambda>l. l \<noteq> []) (py_split_on 10 (str ''Alice\<newline>\<newline>Bob Ray'')))"
    "edges m = []" by blast
  from r(2) d have "length (people m) = 2" unfolding ls f by simp
  with r(1,3) have "\<exists>m log. parseModel ascii_db (str ''Alice\<newline>\<newline>Bob Ray'') = Inr (m, log)
         \<and> length (people m) = 2 \<and> edges m = []" by blast
  moreover have "list_all (\<lambda>l. \<not> prefix [9] l \<and> \<not> (prefix (str ''@'') l \<and> py_in (str '':'') l))
     (py_split_on 10 (str ''Alice\<newline>\<newline>Bob Ray''))"
    using h by (simp only: list_all_iff)
  ultimately show ?thesis by (rule conjI [rotated])
qed

section \<open>Edges whose endpoints are nobody\<close>

lemma findPerson_isl:
  "isl (findPerson m n) \<longleftrightarrow>
     n \<notin> fst ` set (people m) \<and> (\<forall>p\<in>snd ` set (people m). getAttribute p (str ''id'') \<noteq> n)"
proof (cases "find (\<lambda>person. getAttribute person (str ''id'') = n) (map snd (people m))")
  case None
  then have a: "\<forall>p\<in>snd ` set (people m). getAttribute p (str ''id'') \<noteq> n"
    by (auto simp: find_None_iff)
  have "isl (findPerson m n) \<longleftrightarrow> map_of (people m) n = None"
    using None by (simp add: findPerson_def getPersonByName_def split: option.splits)
  also have "\<dots> \<longleftrightarrow> n \<notin> fst ` set (people m)" by (rule map_of_eq_None_iff)
  finally show ?thesis using a by blast
next
  case (Some p)
  then have "p \<in> set (map snd (people m))" "getAttribute p (str ''id'') = n"
    by (auto simp: find_Some_iff)
  then have "\<not> (\<forall>p\<in>snd ` set (people m). getAttribute p (str ''id'') \<noteq> n)" by auto
  moreover have "\<not> isl (findPerson m n)" using Some by (simp add: findPerson_def)
  ultimately show ?thesis by blast
qed

lemma edgesAsDot_isl:
  "isl (edgesAsDot args m es) \<longleftrightarrow>
     (\<exists>e\<in>set es. isl (findPerson m (origin e))
        \<or> (\<not> isPersonExcluded args (projr (findPerson m (origin e)))
            \<and> isl (findPerson m (destination e))))"
proof (induction es)
  case Nil
  then show ?case by simp
next
  case (Cons e es)
  show ?case
  proof (cases "findPerson m (origin e)")
    case (Inl err)
    then show ?thesis by simp
  next
    case o: (Inr po)
    show ?thesis
    proof (cases "isPersonExcluded args po")
      case True
      then show ?thesis using o Cons.IH by simp
    next
      case False
      show ?thesis
      proof (cases "findPerson m (destination e)")
        case (Inl err)
        then show ?thesis using o False by simp
      next
        case d: (Inr pd)
        show ?thesis
          using o False d Cons.IH
          by (cases "isPersonExcluded args pd"; cases "edgesAsDot args m es") simp_all
      qed
    qed
  qed
qed

lemma getModelAsDot_isl: "isl (getModelAsDot args ex iter m) \<longleftrightarrow> isl (edgesAsDot args m (edges m))"
  by (cases "edgesAsDot args m (edges m)") (simp_all add: getModelAsDot_def Let_def)

lemma no_filter_no_exclusion:
  "attributeMatches args = [] \<Longrightarrow> teams_arg args = [] \<Longrightarrow> influence_arg args = [] \<Longrightarrow>
     \<not> isPersonExcluded args p"
  by (simp add: isPersonExcluded_def)

text \<open>
  Claim C4, as amended. Rendering raises an error exactly when the model has an edge
  whose origin is nobody, or whose origin is a person the filter does not exclude and
  whose destination is nobody (a name is nobody when it is no key of the people and no
  person's \<^verbatim>\<open>id\<close> attribute reads as it). An edge whose origin is excluded is skipped
  before its destination is looked up. With no filter criteria, rendering raises exactly
  when some edge has an endpoint that is nobody.
\<close>

theorem render_raises_iff:
  "(isl (getModelAsDot args ex iter m) \<longleftrightarrow>
      (\<exists>e\<in>set (edges m). isl (findPerson m (origin e))
         \<or> (\<not> isPersonExcluded args (projr (findPerson m (origin e)))
             \<and> isl (findPerson m (destination e)))))
   \<and> (isl (findPerson m n) \<longleftrightarrow>
        n \<notin> fst ` set (people m) \<and> (\<forall>p\<in>snd ` set (people m). getAttribute p (str ''id'') \<noteq> n))
   \<and> (attributeMatches args = [] \<and> teams_arg args = [] \<and> influence_arg args = [] \<longrightarrow>
        (isl (getModelAsDot args ex iter m) \<longleftrightarrow>
           (\<exists>e\<in>set (edges m). isl (findPerson m (origin e)) \<or> isl (findPerson m (destination e)))))"
proof (intro conjI impI)
  show 1: "isl (getModelAsDot args ex iter m) \<longleftrightarrow>
      (\<exists>e\<in>set (edges m). isl (findPerson m (origin e))
         \<or> (\<not> isPersonExcluded args (projr (findPerson m (origin e)))
             \<and> isl (findPerson m (destination e))))"
    unfolding getModelAsDot_isl by (rule edgesAsDot_isl)
  show "isl (findPerson m n) \<longleftrightarrow>
        n \<notin> fst ` set (people m) \<and> (\<forall>p\<in>snd ` set (people m). getAttribute p (str ''id'') \<noteq> n)"
    by (rule findPerson_isl)
  assume "attributeMatches args = [] \<and> teams_arg args = [] \<and> influence_arg args = []"
  then have "\<not> isPersonExcluded args p" for p by (simp add: no_filter_no_exclusion)
  then show "isl (getModelAsDot args ex iter m) \<longleftrightarrow>
           (\<exists>e\<in>set (edges m). isl (findPerson m (origin e)) \<or> isl (findPerson m (destination e)))"
    unfolding 1 by blast
qed

theorem render_raises_iff_witness:
  "isl (getModelAsDot default_args no_pictures sales_first model_ghost)
   \<and> isl (findPerson model_ghost (str ''Ghost''))
   \<and> \<not> isl (findPerson model_ghost (str ''Alice''))"
proof -
  note t = render_raises_iff [of default_args no_pictures sales_first model_ghost "str ''Ghost''"]
  have h: "attributeMatches default_args = [] \<and> teams_arg default_args = []
           \<and> influence_arg default_args = []"
    by (simp add: default_args_def)
  have g: "isl (findPerson model_ghost (str ''Ghost''))"
    unfolding t [THEN conjunct2, THEN conjunct1]
    by (simp add: model_ghost_def getAttribute_def str_def)
  have a: "\<not> isl (findPerson model_ghost (str ''Alice''))"
    by (simp add: findPerson_isl model_ghost_def)
  have e: "\<lparr> origin = str ''Alice'', edgeType = str ''knows'', destination = str ''Ghost'' \<rparr>
             \<in> set (edges model_ghost)"
    by (simp add: model_ghost_def)
  have "\<exists>e\<in>set (edges model_ghost). isl (findPerson model_ghost (origin e))
            \<or> isl (findPerson model_ghost (destination e))"
    using g by (intro bexI [OF _ e]) simp
  with t [THEN conjunct2, THEN conjunct2, THEN mp, OF h]
  have "isl (getModelAsDot default_args no_pictures sales_first model_ghost)" by blast
  with g a show ?thesis by blast
qed

section \<open>Team subgraphs\<close>

lemma py_split_on_not_Nil: "py_split_on c s \<noteq> []"
  by (induction s) (auto split: list.splits)

lemma py_split_on_line:
  "c \<notin> set a \<Longrightarrow> py_split_on c (a @ c # b) = a # py_split_on c b"
  by (induction a) (auto split: list.splits)

lemma py_split_on_no_sep: "l \<in> set (py_split_on c s) \<Longrightarrow> c \<notin> set l"
  by (induction s arbitrary: l) (auto split: if_splits list.splits)

lemma str_nat_digits: "set (str_nat n) \<subseteq> {48..57}"
proof (induction n rule: str_nat.induct)
  case (1 n)
  show ?case
  proof (cases "n < 10")
    case True
    then show ?thesis by (subst str_nat.simps) simp
  next
    case False
    have "n mod 10 < 10" by simp
    then have "48 + n mod 10 \<in> {48..57}" by (simp del: mod_less_divisor)
    with 1 False show ?thesis by (subst str_nat.simps) simp
  qed
qed

lemma str_nat_no_newline: "10 \<notin> set (str_nat n)"
  using str_nat_digits [of n] by auto

lemma subgraph_decl_no_newline: "10 \<notin> set (subgraph_decl i)"
  by (simp add: subgraph_decl_def str_nat_no_newline) (simp add: str_def)

lemma team_label_no_newline: "10 \<notin> set t \<Longrightarrow> 10 \<notin> set (team_label t)"
  by (simp add: team_label_def) (simp add: str_def)

lemma teamMembers_lines:
  assumes "\<forall>p\<in>set ps. 10 \<notin> set (dotNodeName p)" and "\<And>d. \<not> P (d @ str '' []'')"
  shows "filter P (py_split_on 10 (teamMembersAsDot args t ps @ rest)) = filter P (py_split_on 10 rest)"
  using assms(1)
proof (induction ps)
  case Nil
  then show ?case by simp
next
  case (Cons p ps)
  have n: "10 \<notin> set (dotNodeName p @ str '' []'')" using Cons.prems by (simp add: str_def)
  have e: "(dotNodeName p @ str '' []\<newline>'' @ teamMembersAsDot args t ps) @ rest
      = (dotNodeName p @ str '' []'') @ 10 # (teamMembersAsDot args t ps @ rest)"
    by (simp add: str_def)
  from Cons have ih: "filter P (py_split_on 10 (teamMembersAsDot args t ps @ rest))
      = filter P (py_split_on 10 rest)" by simp
  show ?case
    by (simp add: e py_split_on_line [OF n] assms(2) ih del: append_assoc)
qed

lemma teamsLoop_block:
  "teamsLoop args m k (t # ts) @ rest =
     subgraph_decl (k + 1) @ 10 # team_label t @ 10 # str ''style=filled'' @ 10
       # str ''fillcolor=skyblue'' @ 10
       # (teamMembersAsDot args t (map snd (people m))
          @ (str ''}'' @ 10 # (teamsLoop args m (k + 1) ts @ rest)))"
  by (simp add: subgraph_decl_def team_label_def) (simp add: str_def)

lemma teamsLoop_lines:
  assumes "\<forall>t\<in>set ts. 10 \<notin> set t"
    and "\<forall>p\<in>set (map snd (people m)). 10 \<notin> set (dotNodeName p)"
    and "\<And>d. \<not> P (d @ str '' []'')"
    and "\<not> P (str ''style=filled'')" "\<not> P (str ''fillcolor=skyblue'')" "\<not> P (str ''}'')"
  shows "filter P (py_split_on 10 (teamsLoop args m k ts @ rest)) =
           concat (map (\<lambda>(i, t). filter P [subgraph_decl i, team_label t])
                       (zip [k + 1 ..< k + 1 + length ts] ts))
           @ filter P (py_split_on 10 rest)"
  using assms(1)
proof (induction ts arbitrary: k)
  case Nil
  then show ?case by simp
next
  case (Cons t ts)
  have nt: "10 \<notin> set (team_label t)" using Cons.prems by (simp add: team_label_no_newline)
  have nf: "10 \<notin> set (str ''style=filled'')" "10 \<notin> set (str ''fillcolor=skyblue'')"
    "10 \<notin> set (str ''}'')" by (simp_all add: str_def)
  from Cons have ih: "filter P (py_split_on 10 (teamsLoop args m (k + 1) ts @ rest)) =
           concat (map (\<lambda>(i, t). filter P [subgraph_decl i, team_label t])
                       (zip [k + 1 + 1 ..< k + 1 + 1 + length ts] ts))
           @ filter P (py_split_on 10 rest)" by simp
  have z: "zip [k + 1 ..< k + 1 + length (t # ts)] (t # ts)
      = (k + 1, t) # zip [k + 1 + 1 ..< k + 1 + 1 + length ts] ts"
  proof -
    have "[k + 1 ..< k + 1 + length (t # ts)] = (k + 1) # [k + 1 + 1 ..< k + 1 + 1 + length ts]"
      by (subst upt_conv_Cons) simp_all
    then show ?thesis by simp
  qed
  have tm: "filter P (py_split_on 10 (teamMembersAsDot args t (map snd (people m)) @ r))
      = filter P (py_split_on 10 r)" for r
    using assms(2) assms(3) by (rule teamMembers_lines)
  show ?case
    unfolding teamsLoop_block z
    apply (simp only: py_split_on_line [OF subgraph_decl_no_newline] py_split_on_line [OF nt]
        py_split_on_line [OF nf(1)] py_split_on_line [OF nf(2)] py_split_on_line [OF nf(3)]
        tm ih filter.simps assms(4,5,6) if_False
        list.map concat.simps prod.case append_assoc)
    by (cases "P (subgraph_decl (k + 1))"; cases "P (team_label t)"; simp)
qed

lemma teamMembers_exact:
  assumes "\<forall>p\<in>set ps. 10 \<notin> set (dotNodeName p)"
  shows "py_split_on 10 (teamMembersAsDot args t ps @ rest) =
           map (\<lambda>p. dotNodeName p @ str '' []'')
               (filter (\<lambda>p. \<not> isPersonExcluded args p \<and> team p = t) ps)
           @ py_split_on 10 rest"
  using assms
proof (induction ps)
  case Nil
  then show ?case by simp
next
  case (Cons p ps)
  have n: "10 \<notin> set (dotNodeName p @ str '' []'')" using Cons.prems by (simp add: str_def)
  have e: "(dotNodeName p @ str '' []\<newline>'' @ teamMembersAsDot args t ps) @ rest
      = (dotNodeName p @ str '' []'') @ 10 # (teamMembersAsDot args t ps @ rest)"
    by (simp add: str_def)
  from Cons have ih: "py_split_on 10 (teamMembersAsDot args t ps @ rest) =
           map (\<lambda>p. dotNodeName p @ str '' []'')
               (filter (\<lambda>p. \<not> isPersonExcluded args p \<and> team p = t) ps)
           @ py_split_on 10 rest" by simp
  show ?case
    by (simp add: e py_split_on_line [OF n] ih del: append_assoc)
qed

lemma teamsLoop_exact:
  assumes "\<forall>t\<in>set ts. 10 \<notin> set t"
    and "\<forall>p\<in>set (map snd (people m)). 10 \<notin> set (dotNodeName p)"
  shows "py_split_on 10 (teamsLoop args m k ts @ rest) =
           concat (map (\<lambda>(i, t). team_block_lines args m i t)
                       (zip [k + 1 ..< k + 1 + length ts] ts))
           @ py_split_on 10 rest"
  using assms(1)
proof (induction ts arbitrary: k)
  case Nil
  then show ?case by simp
next
  case (Cons t ts)
  have nt: "10 \<notin> set (team_label t)" using Cons.prems by (simp add: team_label_no_newline)
  have nf: "10 \<notin> set (str ''style=filled'')" "10 \<notin> set (str ''fillcolor=skyblue'')"
    "10 \<notin> set (str ''}'')" by (simp_all add: str_def)
  from Cons have ih: "py_split_on 10 (teamsLoop args m (k + 1) ts @ rest) =
           concat (map (\<lambda>(i, t). team_block_lines args m i t)
                       (zip [k + 1 + 1 ..< k + 1 + 1 + length ts] ts))
           @ py_split_on 10 rest" by simp
  have z: "zip [k + 1 ..< k + 1 + length (t # ts)] (t # ts)
      = (k + 1, t) # zip [k + 1 + 1 ..< k + 1 + 1 + length ts] ts"
  proof -
    have "[k + 1 ..< k + 1 + length (t # ts)] = (k + 1) # [k + 1 + 1 ..< k + 1 + 1 + length ts]"
      by (subst upt_conv_Cons) simp_all
    then show ?thesis by simp
  qed
  have tm: "py_split_on 10 (teamMembersAsDot args t (map snd (people m)) @ r) =
           map (\<lambda>p. dotNodeName p @ str '' []'')
               (filter (\<lambda>p. \<not> isPersonExcluded args p \<and> team p = t) (map snd (people m)))
           @ py_split_on 10 r" for r
    using assms(2) by (rule teamMembers_exact)
  show ?case
    unfolding teamsLoop_block z
    by (simp only: py_split_on_line [OF subgraph_decl_no_newline] py_split_on_line [OF nt]
        py_split_on_line [OF nf(1)] py_split_on_line [OF nf(2)] py_split_on_line [OF nf(3)]
        tm ih team_block_lines_def list.map concat.simps prod.case append_assoc append.simps)
qed

lemma last_str_append: "last (d @ str '' []'') = 93" "last (subgraph_decl i) = 123"
  "last (team_label t) = 34"
  by (simp_all add: subgraph_decl_def team_label_def) (simp_all add: str_def)

lemma decl_lines:
  "\<not> is_subgraph_decl (d @ str '' []'')" "\<not> is_subgraph_decl (str ''style=filled'')"
  "\<not> is_subgraph_decl (str ''fillcolor=skyblue'')" "\<not> is_subgraph_decl (str ''}'')"
  "\<not> is_subgraph_decl []" "is_subgraph_decl (subgraph_decl i)"
  "\<not> is_subgraph_decl (team_label t)"
proof -
  show "\<not> is_subgraph_decl (d @ str '' []'')"
    by (simp add: is_subgraph_decl_def last_str_append)
  show "is_subgraph_decl (subgraph_decl i)"
    by (simp add: is_subgraph_decl_def last_str_append) (simp add: subgraph_decl_def)
  show "\<not> is_subgraph_decl (team_label t)"
    by (simp add: is_subgraph_decl_def team_label_def) (simp add: str_def)
qed (simp_all add: is_subgraph_decl_def str_def)

lemma label_lines:
  "\<not> is_team_label (d @ str '' []'')" "\<not> is_team_label (str ''style=filled'')"
  "\<not> is_team_label (str ''fillcolor=skyblue'')" "\<not> is_team_label (str ''}'')"
  "\<not> is_team_label []" "is_team_label (team_label t)"
  "\<not> is_team_label (subgraph_decl i)"
proof -
  show "\<not> is_team_label (d @ str '' []'')"
    by (simp add: is_team_label_def last_str_append)
  show "is_team_label (team_label t)"
    by (simp add: is_team_label_def last_str_append) (simp add: team_label_def)
  show "\<not> is_team_label (subgraph_decl i)"
    by (simp add: is_team_label_def subgraph_decl_def) (simp add: str_def)
qed (simp_all add: is_team_label_def str_def)

lemma concat_zip_fst:
  "length is = length ts \<Longrightarrow> concat (map (\<lambda>(i, t). [f i]) (zip is ts)) = map f is"
  by (induction "is" ts rule: list_induct2) simp_all

lemma concat_zip_snd:
  "length is = length ts \<Longrightarrow> concat (map (\<lambda>(i, t). [g t]) (zip is ts)) = map g ts"
  by (induction "is" ts rule: list_induct2) simp_all

lemma team_lines_general:
  assumes "\<not> skipDrawingTeams args" and "names_one_line m"
    and "distinct (iter (teams m))" and "set (iter (teams m)) = teams m"
  shows "py_split_on 10 (getTeamsAsDot args iter m) =
           concat (map (\<lambda>(i, t). team_block_lines args m i t)
                       (zip [1 ..< Suc (card (teams m))] (iter (teams m)))) @ [[]]"
    and "filter is_subgraph_decl (py_split_on 10 (getTeamsAsDot args iter m))
           = map subgraph_decl [1 ..< Suc (card (teams m))]"
    and "filter is_team_label (py_split_on 10 (getTeamsAsDot args iter m))
           = map team_label (iter (teams m))"
proof -
  let ?ts = "iter (teams m)"
  from assms(2) have "\<forall>t\<in>teams m. 10 \<notin> set t"
    and p: "\<forall>p\<in>set (map snd (people m)). 10 \<notin> set (dotNodeName p)"
    by (simp_all add: names_one_line_def list_all_iff)
  then have t: "\<forall>t\<in>set ?ts. 10 \<notin> set t" using assms(4) by simp
  have c: "length ?ts = card (teams m)"
    using distinct_card [OF assms(3)] assms(4) by simp
  have g: "getTeamsAsDot args iter m = teamsLoop args m 0 ?ts @ []"
    using assms(1) by (simp add: getTeamsAsDot_def)
  have r: "[0 + 1 ..< 0 + 1 + length ?ts] = [1 ..< Suc (card (teams m))]"
    by (simp add: c)
  have l: "length [0 + 1 ..< 0 + 1 + length ?ts] = length ?ts"
    by (simp only: length_upt add_diff_cancel_left')
  have "py_split_on 10 (getTeamsAsDot args iter m) =
      concat (map (\<lambda>(i, t). team_block_lines args m i t)
                  (zip [0 + 1 ..< 0 + 1 + length ?ts] ?ts)) @ py_split_on 10 []"
    unfolding g by (rule teamsLoop_exact [OF t p])
  then show "py_split_on 10 (getTeamsAsDot args iter m) =
           concat (map (\<lambda>(i, t). team_block_lines args m i t)
                       (zip [1 ..< Suc (card (teams m))] ?ts)) @ [[]]"
    unfolding r by simp
  have "filter is_subgraph_decl (py_split_on 10 (getTeamsAsDot args iter m)) =
      concat (map (\<lambda>(i, t). filter is_subgraph_decl [subgraph_decl i, team_label t])
                  (zip [0 + 1 ..< 0 + 1 + length ?ts] ?ts))
      @ filter is_subgraph_decl (py_split_on 10 [])"
    unfolding g by (rule teamsLoop_lines [OF t p]) (rule decl_lines)+
  also have "\<dots> = concat (map (\<lambda>(i, t). [subgraph_decl i])
                  (zip [0 + 1 ..< 0 + 1 + length ?ts] ?ts))"
    by (simp add: decl_lines)
  also have "\<dots> = map subgraph_decl [0 + 1 ..< 0 + 1 + length ?ts]"
    using l by (rule concat_zip_fst)
  finally show "filter is_subgraph_decl (py_split_on 10 (getTeamsAsDot args iter m))
           = map subgraph_decl [1 ..< Suc (card (teams m))]" unfolding r .
  have "filter is_team_label (py_split_on 10 (getTeamsAsDot args iter m)) =
      concat (map (\<lambda>(i, t). filter is_team_label [subgraph_decl i, team_label t])
                  (zip [0 + 1 ..< 0 + 1 + length ?ts] ?ts))
      @ filter is_team_label (py_split_on 10 [])"
    unfolding g by (rule teamsLoop_lines [OF t p]) (rule label_lines)+
  also have "\<dots> = concat (map (\<lambda>(i, t). [team_label t])
                  (zip [0 + 1 ..< 0 + 1 + length ?ts] ?ts))"
    by (simp add: label_lines)
  also have "\<dots> = map team_label ?ts"
    using l by (rule concat_zip_snd)
  finally show "filter is_team_label (py_split_on 10 (getTeamsAsDot args iter m))
           = map team_label ?ts" .
qed

lemma names_one_line_iff:
  "names_one_line m \<longleftrightarrow>
     (\<forall>t\<in>teams m. 10 \<notin> set t) \<and> (\<forall>p\<in>snd ` set (people m). 10 \<notin> set (dotNodeName p))"
  by (simp add: names_one_line_def list_all_iff)

lemma convert_no_newline:
  assumes "10 \<notin> set l"
  shows "10 \<notin> set (convertHumanNameToDotNodeName l)"
proof
  assume "10 \<in> set (convertHumanNameToDotNodeName l)"
  then have "10 \<in> set (py_strip (py_replace [45] [] (py_strip (py_replace [32] [95] (py_strip l)))))"
    unfolding convert_unfold by (auto dest: in_py_replace_single)
  then have "10 \<in> set (py_replace [45] [] (py_strip (py_replace [32] [95] (py_strip l))))"
    using set_py_strip by blast
  then have "10 \<in> set (py_strip (py_replace [32] [95] (py_strip l)))"
    by (auto dest: in_py_replace_single)
  then have "10 \<in> set (py_replace [32] [95] (py_strip l))"
    using set_py_strip by blast
  then have "10 \<in> set (py_strip l)" by (auto dest: in_py_replace_single)
  then show False using assms set_py_strip by blast
qed

lemma values_update: "snd ` set (AList.update k v al) \<subseteq> insert v (snd ` set al)"
  by (induction al) auto

lemma addPerson_one_line:
  assumes "names_one_line m" and "10 \<notin> set l"
  shows "names_one_line (fst (addPerson u l m))"
proof -
  let ?q = "fst (Person_init u l)"
  have d: "dotNodeName ?q = convertHumanNameToDotNodeName l"
    by (simp add: Person_init_def Let_def convert_strip)
  have q: "10 \<notin> set (dotNodeName ?q)" unfolding d using assms(2) by (rule convert_no_newline)
  have old: "\<forall>p\<in>snd ` set (people m). 10 \<notin> set (dotNodeName p)"
    and t: "\<forall>t\<in>teams m. 10 \<notin> set t"
    using assms(1) unfolding names_one_line_iff by blast+
  have sub: "snd ` set (people (fst (addPerson u l m))) \<subseteq> insert ?q (snd ` set (people m))"
    unfolding addPerson_fields by (rule values_update)
  have "\<forall>p\<in>snd ` set (people (fst (addPerson u l m))). 10 \<notin> set (dotNodeName p)"
  proof
    fix p assume "p \<in> snd ` set (people (fst (addPerson u l m)))"
    with sub have "p = ?q \<or> p \<in> snd ` set (people m)" by blast
    then show "10 \<notin> set (dotNodeName p)" using q old by blast
  qed
  moreover have "\<forall>t\<in>teams (fst (addPerson u l m)). 10 \<notin> set t"
    unfolding addPerson_fields by (rule t)
  ultimately show ?thesis unfolding names_one_line_iff by blast
qed

lemma getLastPerson_member:
  "getLastPerson m = Inr (k, p) \<Longrightarrow> p \<in> snd ` set (people m)"
  by (auto simp: getLastPerson_def split: option.splits dest!: map_of_SomeD intro: rev_image_eqI)

lemma putLastPerson_one_line:
  assumes "names_one_line m" and "10 \<notin> set (dotNodeName q)"
  shows "names_one_line (putLastPerson k q m)"
proof -
  have old: "\<forall>p\<in>snd ` set (people m). 10 \<notin> set (dotNodeName p)"
    and t: "\<forall>t\<in>teams m. 10 \<notin> set t"
    using assms(1) unfolding names_one_line_iff by blast+
  have pe: "people (putLastPerson k q m) = AList.update k q (people m)"
    and te: "teams (putLastPerson k q m) = teams m"
    by (simp_all add: putLastPerson_def)
  have sub: "snd ` set (people (putLastPerson k q m)) \<subseteq> insert q (snd ` set (people m))"
    unfolding pe by (rule values_update)
  have "\<forall>p\<in>snd ` set (people (putLastPerson k q m)). 10 \<notin> set (dotNodeName p)"
  proof
    fix p assume "p \<in> snd ` set (people (putLastPerson k q m))"
    with sub have "p = q \<or> p \<in> snd ` set (people m)" by blast
    then show "10 \<notin> set (dotNodeName p)" using assms(2) old by blast
  qed
  moreover have "\<forall>t\<in>teams (putLastPerson k q m). 10 \<notin> set t"
    unfolding te by (rule t)
  ultimately show ?thesis unfolding names_one_line_iff by blast
qed

lemma setters_dotNodeName:
  "dotNodeName (fst (setDmu u v p)) = dotNodeName p"
  "dotNodeName (fst (setSentiment u v p)) = dotNodeName p"
  "dotNodeName (setInfluence v p) = dotNodeName p"
  "dotNodeName (setTeam v p) = dotNodeName p"
  "dotNodeName (setAttribute k v p) = dotNodeName p"
  by (simp_all add: setDmu_def setSentiment_def setInfluence_def setTeam_def setAttribute_def Let_def)

lemma addTeam_one_line:
  assumes "names_one_line m" and "10 \<notin> set t"
  shows "names_one_line (addTeam t m)"
proof -
  have old: "\<forall>p\<in>snd ` set (people m). 10 \<notin> set (dotNodeName p)"
    and ts: "\<forall>t\<in>teams m. 10 \<notin> set t"
    using assms(1) unfolding names_one_line_iff by blast+
  have pe: "people (addTeam t m) = people m"
    and te: "teams (addTeam t m) = insert t (teams m)"
    by (simp_all add: addTeam_def)
  have "\<forall>x\<in>teams (addTeam t m). 10 \<notin> set x"
    unfolding te using ts assms(2) by blast
  moreover have "\<forall>p\<in>snd ` set (people (addTeam t m)). 10 \<notin> set (dotNodeName p)"
    unfolding pe by (rule old)
  ultimately show ?thesis unfolding names_one_line_iff by blast
qed

lemma addTeam_people: "people (addTeam t m) = people m"
  by (simp add: addTeam_def)

lemma unpack2_split1_sets:
  assumes "unpack2 (py_split1 sep s) = Inr (a, b)"
  shows "set a \<subseteq> set s" "set b \<subseteq> set s"
  using assms
  by (auto simp: py_split1_def split: option.splits dest: in_set_takeD in_set_dropD)

lemma parseConnection_one_line:
  assumes "parseConnection m line = Inr m'" and "names_one_line m"
  shows "names_one_line m'"
proof -
  have "people m' = people m \<and> teams m' = teams m"
    using assms(1)
    by (auto simp: parseConnection_def addConnection_def
        split: sum.splits prod.splits if_splits)
  then show ?thesis using assms(2) by (simp add: names_one_line_iff)
qed

lemma parsePersonProperty_one_line:
  assumes "parsePersonProperty u (m, log) line = Inr (m', log')" and "names_one_line m"
    and "10 \<notin> set line"
  shows "names_one_line m'"
proof (cases "unpack2 (py_split1 (str '':'') line)")
  case (Inl e)
  then show ?thesis using assms(1) by (simp add: parsePersonProperty_def)
next
  case (Inr kv)
  obtain key0 val0 where kv: "kv = (key0, val0)" by (cases kv)
  from Inr kv unpack2_split1_sets(2) have "set val0 \<subseteq> set line" by blast
  then have v: "10 \<notin> set (py_strip val0)" using assms(3) set_py_strip by blast
  let ?key = "str_lower u (py_strip key0)"
  let ?val = "py_strip val0"
  have team: "names_one_line (addTeam ?val m)" using assms(2) v by (rule addTeam_one_line)
  have put: "names_one_line m'"
    if "names_one_line mm"
      and "(case getLastPerson mm of Inl e \<Rightarrow> Inl e
            | Inr (k, p) \<Rightarrow> Inr (putLastPerson k (f p) mm, lg p)) = Inr (m', log')"
      and "\<And>p. dotNodeName (f p) = dotNodeName p"
    for mm f and lg :: "Person \<Rightarrow> pystr list"
  proof (cases "getLastPerson mm")
    case (Inl e)
    with that(2) show ?thesis by simp
  next
    case (Inr kp)
    obtain k p where kp: "kp = (k, p)" by (cases kp)
    from Inr kp have "p \<in> snd ` set (people mm)" by (simp add: getLastPerson_member)
    with that(1) have "10 \<notin> set (dotNodeName p)" unfolding names_one_line_iff by blast
    with that(3) have "10 \<notin> set (dotNodeName (f p))" by simp
    with that(1) have "names_one_line (putLastPerson k (f p) mm)" by (rule putLastPerson_one_line)
    moreover from that(2) Inr kp have "m' = putLastPerson k (f p) mm" by simp
    ultimately show ?thesis by simp
  qed
  note pp = parsePersonProperty_def Let_def Inr kv sum.case prod.case
  consider (i) "?key = str ''influence''" | (s) "?key \<noteq> str ''influence''" "?key = str ''sentiment''"
    | (d) "?key \<noteq> str ''influence''" "?key \<noteq> str ''sentiment''" "?key = str ''dmu''"
    | (t) "?key \<noteq> str ''influence''" "?key \<noteq> str ''sentiment''" "?key \<noteq> str ''dmu''"
          "?key = str ''team''"
    | (a) "?key \<noteq> str ''influence''" "?key \<noteq> str ''sentiment''" "?key \<noteq> str ''dmu''"
          "?key \<noteq> str ''team''"
    by blast
  then show ?thesis
  proof cases
    case i
    have "(case getLastPerson m of Inl e \<Rightarrow> Inl e
           | Inr (k, p) \<Rightarrow> Inr (putLastPerson k (setInfluence ?val p) m, log)) = Inr (m', log')"
      using assms(1) i unfolding pp by simp
    from put [OF assms(2) this] show ?thesis by (simp add: setters_dotNodeName)
  next
    case s
    have "(case getLastPerson m of Inl e \<Rightarrow> Inl e
           | Inr (k, p) \<Rightarrow> Inr (putLastPerson k (fst (setSentiment u ?val p)) m,
                                 log @ snd (setSentiment u ?val p))) = Inr (m', log')"
      using assms(1) s unfolding pp by (cases "getLastPerson m") (simp_all add: case_prod_beta)
    from put [OF assms(2) this] show ?thesis by (simp add: setters_dotNodeName)
  next
    case d
    have "(case getLastPerson m of Inl e \<Rightarrow> Inl e
           | Inr (k, p) \<Rightarrow> Inr (putLastPerson k (fst (setDmu u ?val p)) m,
                                 log @ snd (setDmu u ?val p))) = Inr (m', log')"
      using assms(1) d unfolding pp by (cases "getLastPerson m") (simp_all add: case_prod_beta)
    from put [OF assms(2) this] show ?thesis by (simp add: setters_dotNodeName)
  next
    case t
    have "(case getLastPerson (addTeam ?val m) of Inl e \<Rightarrow> Inl e
           | Inr (k, p) \<Rightarrow> Inr (putLastPerson k (setTeam ?val p) (addTeam ?val m), log))
            = Inr (m', log')"
      using assms(1) t unfolding pp by simp
    from put [OF team this] show ?thesis by (simp add: setters_dotNodeName)
  next
    case a
    have "(case getLastPerson m of Inl e \<Rightarrow> Inl e
           | Inr (k, p) \<Rightarrow> Inr (putLastPerson k (setAttribute ?key ?val p) m, log))
            = Inr (m', log')"
      using assms(1) a unfolding pp by simp
    from put [OF assms(2) this] show ?thesis by (simp add: setters_dotNodeName)
  qed
qed

lemma teams_declared_iff:
  "teams_declared m \<longleftrightarrow>
     finite (teams m) \<and> (\<forall>p\<in>snd ` set (people m). team p = str ''??'' \<or> team p \<in> teams m)"
  by (simp add: teams_declared_def list_all_iff)

lemma addPerson_declared:
  assumes "teams_declared m"
  shows "teams_declared (fst (addPerson u l m))"
proof -
  let ?q = "fst (Person_init u l)"
  have q: "team ?q = str ''??''" by (simp add: Person_init_def Let_def)
  have old: "\<forall>p\<in>snd ` set (people m). team p = str ''??'' \<or> team p \<in> teams m"
    and f: "finite (teams m)"
    using assms unfolding teams_declared_iff by blast+
  have sub: "snd ` set (people (fst (addPerson u l m))) \<subseteq> insert ?q (snd ` set (people m))"
    unfolding addPerson_fields by (rule values_update)
  have "\<forall>p\<in>snd ` set (people (fst (addPerson u l m))).
          team p = str ''??'' \<or> team p \<in> teams (fst (addPerson u l m))"
  proof
    fix p assume "p \<in> snd ` set (people (fst (addPerson u l m)))"
    with sub have "p = ?q \<or> p \<in> snd ` set (people m)" by blast
    then show "team p = str ''??'' \<or> team p \<in> teams (fst (addPerson u l m))"
      unfolding addPerson_fields using q old by blast
  qed
  moreover have "finite (teams (fst (addPerson u l m)))"
    unfolding addPerson_fields by (rule f)
  ultimately show ?thesis unfolding teams_declared_iff by blast
qed

lemma putLastPerson_declared:
  assumes "teams_declared m" and "team q = str ''??'' \<or> team q \<in> teams m"
  shows "teams_declared (putLastPerson k q m)"
proof -
  have old: "\<forall>p\<in>snd ` set (people m). team p = str ''??'' \<or> team p \<in> teams m"
    and f: "finite (teams m)"
    using assms(1) unfolding teams_declared_iff by blast+
  have pe: "people (putLastPerson k q m) = AList.update k q (people m)"
    and te: "teams (putLastPerson k q m) = teams m"
    by (simp_all add: putLastPerson_def)
  have sub: "snd ` set (people (putLastPerson k q m)) \<subseteq> insert q (snd ` set (people m))"
    unfolding pe by (rule values_update)
  have "\<forall>p\<in>snd ` set (people (putLastPerson k q m)).
          team p = str ''??'' \<or> team p \<in> teams (putLastPerson k q m)"
  proof
    fix p assume "p \<in> snd ` set (people (putLastPerson k q m))"
    with sub have "p = q \<or> p \<in> snd ` set (people m)" by blast
    then show "team p = str ''??'' \<or> team p \<in> teams (putLastPerson k q m)"
      unfolding te using assms(2) old by blast
  qed
  moreover have "finite (teams (putLastPerson k q m))" unfolding te by (rule f)
  ultimately show ?thesis unfolding teams_declared_iff by blast
qed

lemma addTeam_declared:
  assumes "teams_declared m"
  shows "teams_declared (addTeam t m)"
proof -
  have old: "\<forall>p\<in>snd ` set (people m). team p = str ''??'' \<or> team p \<in> teams m"
    and f: "finite (teams m)"
    using assms unfolding teams_declared_iff by blast+
  have pe: "people (addTeam t m) = people m"
    and te: "teams (addTeam t m) = insert t (teams m)"
    by (simp_all add: addTeam_def)
  have "\<forall>p\<in>snd ` set (people (addTeam t m)). team p = str ''??'' \<or> team p \<in> teams (addTeam t m)"
    unfolding pe te using old by blast
  moreover have "finite (teams (addTeam t m))" unfolding te using f by simp
  ultimately show ?thesis unfolding teams_declared_iff by blast
qed

lemma setters_team:
  "team (fst (setDmu u v p)) = team p"
  "team (fst (setSentiment u v p)) = team p"
  "team (setInfluence v p) = team p"
  "team (setTeam v p) = v"
  "team (setAttribute k v p) = team p"
  by (simp_all add: setDmu_def setSentiment_def setInfluence_def setTeam_def setAttribute_def Let_def)

lemma parseConnection_declared:
  assumes "parseConnection m line = Inr m'" and "teams_declared m"
  shows "teams_declared m'"
proof -
  have "people m' = people m \<and> teams m' = teams m"
    using assms(1)
    by (auto simp: parseConnection_def addConnection_def
        split: sum.splits prod.splits if_splits)
  then show ?thesis using assms(2) by (simp add: teams_declared_iff)
qed

lemma parsePersonProperty_declared:
  assumes "parsePersonProperty u (m, log) line = Inr (m', log')" and "teams_declared m"
  shows "teams_declared m'"
proof (cases "unpack2 (py_split1 (str '':'') line)")
  case (Inl e)
  then show ?thesis using assms(1) by (simp add: parsePersonProperty_def)
next
  case (Inr kv)
  obtain key0 val0 where kv: "kv = (key0, val0)" by (cases kv)
  let ?key = "str_lower u (py_strip key0)"
  let ?val = "py_strip val0"
  have team: "teams_declared (addTeam ?val m)" using assms(2) by (rule addTeam_declared)
  have put: "teams_declared m'"
    if "teams_declared mm"
      and "(case getLastPerson mm of Inl e \<Rightarrow> Inl e
            | Inr (k, p) \<Rightarrow> Inr (putLastPerson k (f p) mm, lg p)) = Inr (m', log')"
      and "\<And>p. team (f p) = team p \<or> team (f p) \<in> teams mm"
    for mm f and lg :: "Person \<Rightarrow> pystr list"
  proof (cases "getLastPerson mm")
    case (Inl e)
    with that(2) show ?thesis by simp
  next
    case (Inr kp)
    obtain k p where kp: "kp = (k, p)" by (cases kp)
    from Inr kp have "p \<in> snd ` set (people mm)" by (simp add: getLastPerson_member)
    with that(1) have "team p = str ''??'' \<or> team p \<in> teams mm"
      unfolding teams_declared_iff by blast
    with that(3) [of p] have "team (f p) = str ''??'' \<or> team (f p) \<in> teams mm" by auto
    with that(1) have "teams_declared (putLastPerson k (f p) mm)" by (rule putLastPerson_declared)
    moreover from that(2) Inr kp have "m' = putLastPerson k (f p) mm" by simp
    ultimately show ?thesis by simp
  qed
  note pp = parsePersonProperty_def Let_def Inr kv sum.case prod.case
  consider (i) "?key = str ''influence''" | (s) "?key \<noteq> str ''influence''" "?key = str ''sentiment''"
    | (d) "?key \<noteq> str ''influence''" "?key \<noteq> str ''sentiment''" "?key = str ''dmu''"
    | (t) "?key \<noteq> str ''influence''" "?key \<noteq> str ''sentiment''" "?key \<noteq> str ''dmu''"
          "?key = str ''team''"
    | (a) "?key \<noteq> str ''influence''" "?key \<noteq> str ''sentiment''" "?key \<noteq> str ''dmu''"
          "?key \<noteq> str ''team''"
    by blast
  then show ?thesis
  proof cases
    case i
    have "(case getLastPerson m of Inl e \<Rightarrow> Inl e
           | Inr (k, p) \<Rightarrow> Inr (putLastPerson k (setInfluence ?val p) m, log)) = Inr (m', log')"
      using assms(1) i unfolding pp by simp
    from put [OF assms(2) this] show ?thesis by (simp add: setters_team)
  next
    case s
    have "(case getLastPerson m of Inl e \<Rightarrow> Inl e
           | Inr (k, p) \<Rightarrow> Inr (putLastPerson k (fst (setSentiment u ?val p)) m,
                                 log @ snd (setSentiment u ?val p))) = Inr (m', log')"
      using assms(1) s unfolding pp by (cases "getLastPerson m") (simp_all add: case_prod_beta)
    from put [OF assms(2) this] show ?thesis by (simp add: setters_team)
  next
    case d
    have "(case getLastPerson m of Inl e \<Rightarrow> Inl e
           | Inr (k, p) \<Rightarrow> Inr (putLastPerson k (fst (setDmu u ?val p)) m,
                                 log @ snd (setDmu u ?val p))) = Inr (m', log')"
      using assms(1) d unfolding pp by (cases "getLastPerson m") (simp_all add: case_prod_beta)
    from put [OF assms(2) this] show ?thesis by (simp add: setters_team)
  next
    case t
    have "(case getLastPerson (addTeam ?val m) of Inl e \<Rightarrow> Inl e
           | Inr (k, p) \<Rightarrow> Inr (putLastPerson k (setTeam ?val p) (addTeam ?val m), log))
            = Inr (m', log')"
      using assms(1) t unfolding pp by simp
    from put [OF team this] show ?thesis by (simp add: setters_team addTeam_def)
  next
    case a
    have "(case getLastPerson m of Inl e \<Rightarrow> Inl e
           | Inr (k, p) \<Rightarrow> Inr (putLastPerson k (setAttribute ?key ?val p) m, log))
            = Inr (m', log')"
      using assms(1) a unfolding pp by simp
    from put [OF assms(2) this] show ?thesis by (simp add: setters_team)
  qed
qed

lemma title_update_invariants:
  "names_one_line (m\<lparr>title := t\<rparr>) = names_one_line m"
  "teams_declared (m\<lparr>title := t\<rparr>) = teams_declared m"
  by (simp_all add: names_one_line_def teams_declared_def)

lemma parseLine_invariants:
  assumes "parseLine u (m, log) line = Inr (m', log')"
    and "names_one_line m" and "teams_declared m" and "10 \<notin> set line"
  shows "names_one_line m' \<and> teams_declared m'"
proof -
  let ?line1 = "py_replace [9] [] (py_strip line)"
  have l1: "10 \<notin> set ?line1"
  proof
    assume "10 \<in> set ?line1"
    then have "10 \<in> set (py_strip line)" by (auto dest: in_py_replace_single)
    then show False using assms(4) set_py_strip by blast
  qed
  consider (empty) "line = []"
    | (directive) "line \<noteq> []" "prefix (str ''@'') line \<and> py_in (str '':'') line"
    | (conn) "line \<noteq> []" "\<not> (prefix (str ''@'') line \<and> py_in (str '':'') line)"
        "prefix [9] line" "py_in (str ''->'') ?line1"
    | (property) "line \<noteq> []" "\<not> (prefix (str ''@'') line \<and> py_in (str '':'') line)"
        "prefix [9] line" "\<not> py_in (str ''->'') ?line1" "py_in (str '':'') ?line1"
    | (fall) "line \<noteq> []" "\<not> (prefix (str ''@'') line \<and> py_in (str '':'') line)"
        "prefix [9] line" "\<not> py_in (str ''->'') ?line1" "\<not> py_in (str '':'') ?line1"
    | (person) "line \<noteq> []" "\<not> (prefix (str ''@'') line \<and> py_in (str '':'') line)"
        "\<not> prefix [9] line"
    by blast
  then show ?thesis
  proof cases
    case empty
    with assms(1) have "m' = m" by (simp add: parseLine_def)
    with assms(2,3) show ?thesis by simp
  next
    case directive
    from directive(2) have nd: "(prefix (str ''@'') line \<and> py_in (str '':'') line) = True" by simp
    have "parseLine u (m, log) line =
        (case unpack2 (py_split1 (str '':'') (py_replace (str ''@'') [] line)) of
           Inl e \<Rightarrow> Inl e
         | Inr (key, val) \<Rightarrow>
             Inr (if key = str ''title'' then m\<lparr>title := py_strip val\<rparr> else m, log))"
      by (simp add: parseLine_def nd directive(1))
    with assms(1) obtain key val where
      "m' = (if key = str ''title'' then m\<lparr>title := py_strip val\<rparr> else m)"
      by (cases "unpack2 (py_split1 (str '':'') (py_replace (str ''@'') [] line))") auto
    with assms(2,3) show ?thesis by (simp add: title_update_invariants)
  next
    case conn
    from conn(2) have nd: "(prefix (str ''@'') line \<and> py_in (str '':'') line) = False" by simp
    have "parseLine u (m, log) line =
        (case parseConnection m ?line1 of Inl e \<Rightarrow> Inl e | Inr model' \<Rightarrow> Inr (model', log))"
      by (simp add: parseLine_def Let_def nd conn(1,3,4))
    with assms(1) have c: "parseConnection m ?line1 = Inr m'"
      by (cases "parseConnection m ?line1") auto
    show ?thesis
      using parseConnection_one_line [OF c assms(2)] parseConnection_declared [OF c assms(3)]
      by (rule conjI)
  next
    case property
    from property(2) have nd: "(prefix (str ''@'') line \<and> py_in (str '':'') line) = False" by simp
    have "parseLine u (m, log) line = parsePersonProperty u (m, log) ?line1"
      by (simp add: parseLine_def Let_def nd property(1,3,4,5))
    with assms(1) have c: "parsePersonProperty u (m, log) ?line1 = Inr (m', log')" by simp
    show ?thesis
      using parsePersonProperty_one_line [OF c assms(2) l1]
        parsePersonProperty_declared [OF c assms(3)]
      by (rule conjI)
  next
    case fall
    from fall(2) have nd: "(prefix (str ''@'') line \<and> py_in (str '':'') line) = False" by simp
    have "parseLine u (m, log) line =
        Inr (fst (addPerson u ?line1 m),
             log @ [str ''Cannot parse line: '' @ ?line1] @ snd (addPerson u ?line1 m))"
      by (simp add: parseLine_def Let_def case_prod_beta nd fall(1,3,4,5))
    with assms(1) have "m' = fst (addPerson u ?line1 m)" by simp
    then show ?thesis
      using addPerson_one_line [OF assms(2) l1] addPerson_declared [OF assms(3)] by simp
  next
    case person
    from person(2) have nd: "(prefix (str ''@'') line \<and> py_in (str '':'') line) = False" by simp
    have "parseLine u (m, log) line =
        Inr (fst (addPerson u line m), log @ snd (addPerson u line m))"
      by (simp add: parseLine_def case_prod_beta nd person(1,3))
    with assms(1) have "m' = fst (addPerson u line m)" by simp
    then show ?thesis
      using addPerson_one_line [OF assms(2,4)] addPerson_declared [OF assms(3)] by simp
  qed
qed

lemma parseLines_invariants:
  assumes "parseLines u (m, log) ls = Inr (m', log')"
    and "names_one_line m" and "teams_declared m"
    and "\<forall>l\<in>set ls. 10 \<notin> set l"
  shows "names_one_line m' \<and> teams_declared m'"
  using assms
proof (induction ls arbitrary: m log)
  case Nil
  then show ?case by simp
next
  case (Cons l ls)
  show ?case
  proof (cases "parseLine u (m, log) l")
    case (Inl e)
    with Cons.prems(1) show ?thesis by simp
  next
    case (Inr st)
    obtain m1 log1 where st: "st = (m1, log1)" by (cases st)
    from Inr st have "parseLine u (m, log) l = Inr (m1, log1)" by simp
    then have "names_one_line m1 \<and> teams_declared m1" using Cons.prems(2,3)
      by (rule parseLine_invariants) (use Cons.prems(4) in simp)
    moreover from Cons.prems(1) Inr st have "parseLines u (m1, log1) ls = Inr (m', log')" by simp
    ultimately show ?thesis using Cons.IH Cons.prems(4) by simp
  qed
qed

lemma parseModel_invariants:
  assumes "parseModel u contents = Inr (m, log)"
  shows "names_one_line m" and "teams_declared m"
proof -
  have 1: "names_one_line Model_init" by (simp add: names_one_line_def Model_init_def)
  have 2: "teams_declared Model_init" by (simp add: teams_declared_def Model_init_def)
  have 3: "\<forall>l\<in>set (py_split_on 10 contents). 10 \<notin> set l"
  proof
    fix l :: pystr assume "l \<in> set (py_split_on 10 contents)"
    then show "10 \<notin> set l" by (rule py_split_on_no_sep)
  qed
  from assms have "parseLines u (Model_init, []) (py_split_on 10 contents) = Inr (m, log)"
    by (simp add: parseModel_def)
  from parseLines_invariants [OF this 1 2 3]
  show "names_one_line m" and "teams_declared m" by blast+
qed

text \<open>
  Claim C7. When the drawing of teams is not suppressed, the team part of the rendering
  of a parsed model is, line by line, one block for each element of the set of team
  names, whatever order the iteration of the set takes and whatever the filter excludes:
  the line that opens the subgraph (numbered from 1 in the order of the visit), the
  label with the team's name, the two style lines, one line for each person of that team
  whom the filter does not exclude, and the closing brace. So there are as many
  declarations as the set has team names, each team name is labelled exactly once, and
  the filter decides nothing but the member lines. The set is finite and has the team of
  every person who was given one.
\<close>

theorem team_declarations_always_emitted:
  assumes "parseModel u contents = Inr (m, log)" and "\<not> skipDrawingTeams args"
    and "distinct (iter (teams m))" and "set (iter (teams m)) = teams m"
  shows "py_split_on 10 (getTeamsAsDot args iter m) =
           concat (map (\<lambda>(i, t). team_block_lines args m i t)
                       (zip [1 ..< Suc (card (teams m))] (iter (teams m)))) @ [[]]
         \<and> filter is_subgraph_decl (py_split_on 10 (getTeamsAsDot args iter m))
             = map subgraph_decl [1 ..< Suc (card (teams m))]
         \<and> filter is_team_label (py_split_on 10 (getTeamsAsDot args iter m))
             = map team_label (iter (teams m))
         \<and> finite (teams m)
         \<and> (\<forall>p\<in>snd ` set (people m). team p = str ''??'' \<or> team p \<in> teams m)"
proof -
  note g = team_lines_general [where iter = iter and m = m and args = args,
      OF assms(2) parseModel_invariants(1) [OF assms(1)] assms(3,4)]
  from parseModel_invariants(2) [OF assms(1)]
  have d: "finite (teams m)"
    "\<forall>p\<in>snd ` set (people m). team p = str ''??'' \<or> team p \<in> teams m"
    unfolding teams_declared_iff by blast+
  from g d show ?thesis by (intro conjI)
qed

lemma model_two_teams_parsed:
  "parseModel ascii_db (str ''Alice\<newline>'' @ [9] @ str ''team: Eng\<newline>Bob\<newline>'' @ [9] @ str ''team: Sales'')
     = Inr (model_two_teams, [])"
  by (simp add: run_parser model_two_teams_def)

lemma two_teams_order:
  "sales_first (teams model_two_teams) = [str ''Sales'', str ''Eng'']"
  "card (teams model_two_teams) = 2"
  by (simp_all add: sales_first_def model_two_teams_def str_def)

lemma two_teams_blocks:
  \<open>team_block_lines args_eng model_two_teams 1 (str ''Sales'') =
     [str ''subgraph cluster_1{'', str ''label="Sales"'', str ''style=filled'',
      str ''fillcolor=skyblue'', str ''}'']\<close>
  \<open>team_block_lines args_eng model_two_teams 2 (str ''Eng'') =
     [str ''subgraph cluster_2{'', str ''label="Eng"'', str ''style=filled'',
      str ''fillcolor=skyblue'', str ''Alice []'', str ''}'']\<close>
  by (simp_all add: team_block_lines_def subgraph_decl_def team_label_def model_two_teams_def
      isPersonExcluded_def args_eng_def default_args_def str_nat.simps str_def)

theorem team_declarations_always_emitted_witness:
  \<open>parseModel ascii_db (str ''Alice\<newline>'' @ [9] @ str ''team: Eng\<newline>Bob\<newline>'' @ [9] @ str ''team: Sales'')
     = Inr (model_two_teams, [])
   \<and> \<not> skipDrawingTeams args_eng
   \<and> distinct (sales_first (teams model_two_teams))
   \<and> set (sales_first (teams model_two_teams)) = teams model_two_teams
   \<and> py_split_on 10 (getTeamsAsDot args_eng sales_first model_two_teams) =
       [str ''subgraph cluster_1{'', str ''label="Sales"'', str ''style=filled'',
        str ''fillcolor=skyblue'', str ''}'',
        str ''subgraph cluster_2{'', str ''label="Eng"'', str ''style=filled'',
        str ''fillcolor=skyblue'', str ''Alice []'', str ''}'', []]
   \<and> filter is_subgraph_decl (py_split_on 10 (getTeamsAsDot args_eng sales_first model_two_teams))
       = [str ''subgraph cluster_1{'', str ''subgraph cluster_2{'']
   \<and> filter is_team_label (py_split_on 10 (getTeamsAsDot args_eng sales_first model_two_teams))
       = [str ''label="Sales"'', str ''label="Eng"'']\<close>
proof -
  have h: "\<not> skipDrawingTeams args_eng" by (simp add: args_eng_def default_args_def)
  have d: "distinct (sales_first (teams model_two_teams))"
    unfolding two_teams_order by (simp add: str_def)
  have e: "set (sales_first (teams model_two_teams)) = teams model_two_teams"
    unfolding two_teams_order by (simp add: model_two_teams_def)
  note t = team_declarations_always_emitted [where iter = sales_first and args = args_eng,
      OF model_two_teams_parsed h d e]
  have r: "[1 ..< Suc 2] = [1, 2]" by (simp add: upt_rec)
  from t [THEN conjunct1]
  have a: \<open>py_split_on 10 (getTeamsAsDot args_eng sales_first model_two_teams) =
       [str ''subgraph cluster_1{'', str ''label="Sales"'', str ''style=filled'',
        str ''fillcolor=skyblue'', str ''}'',
        str ''subgraph cluster_2{'', str ''label="Eng"'', str ''style=filled'',
        str ''fillcolor=skyblue'', str ''Alice []'', str ''}'', []]\<close>
    unfolding two_teams_order r by (simp add: two_teams_blocks del: One_nat_def)
  from t [THEN conjunct2, THEN conjunct1]
  have b: "filter is_subgraph_decl (py_split_on 10 (getTeamsAsDot args_eng sales_first model_two_teams))
       = [str ''subgraph cluster_1{'', str ''subgraph cluster_2{'']"
    unfolding two_teams_order r
    by (simp add: subgraph_decl_def str_nat.simps) (simp add: str_def)
  from t [THEN conjunct2, THEN conjunct2, THEN conjunct1]
  have c: \<open>filter is_team_label (py_split_on 10 (getTeamsAsDot args_eng sales_first model_two_teams))
       = [str ''label="Sales"'', str ''label="Eng"'']\<close>
    unfolding two_teams_order by (simp add: team_label_def) (simp add: str_def)
  from model_two_teams_parsed h d e a b c show ?thesis by (intro conjI)
qed

end
